theory Spec2Isabelle
  imports Complex_Main "HOL-Library.List_Lexorder" "HOL-Library.Char_ord"
begin

section \<open>Data model (types.ts)\<close>

text \<open>
  The number fields of the records hold the real values of finite JavaScript
  numbers. The summary is computed over the reals; the calendar, whose statuses
  turn on comparisons of a running total, is computed in the double-precision
  arithmetic of JavaScript, modelled below. String-literal union types become
  datatypes whose constructors are the capitalised literals; \<open>'none'\<close> is written
  \<open>NoSubsidy\<close> for the subsidy type and \<open>NoStatus\<close> for the day status. A field
  \<open>id\<close> is written \<open>id'\<close>, the slab bounds \<open>min\<close> and \<open>max\<close> are \<open>slab_min\<close> and
  \<open>slab_max\<close>, and the calendar cell's \<open>log\<close> is \<open>dayLog\<close>, since the plain names are
  constants of HOL.
\<close>

datatype ApplianceCategory = Lighting | Cooling | Heating | Electronics | Motor

datatype EnergyMode = Standard | Bee_annual | Iseer | Eer

datatype ACType = Inverter | Non_inverter

datatype Season = Summer | Winter | Monsoon

datatype SubsidyType = NoSubsidy | Government | Company

record SubsidyConfig =
  type :: SubsidyType
  limitUnits :: real

record Appliance =
  id' :: string
  name :: string
  category :: ApplianceCategory
  watts :: real
  hoursPerDay :: real
  daysPerMonth :: real
  quantity :: real
  inputMode :: EnergyMode
  acType :: "ACType option"
  annualUnits :: "real option"
  capacityTon :: "real option"
  iseer :: "real option"
  eer :: "real option"
  starRating :: "real option"
  icon :: string

record DailyApplianceEntry =
  applianceId :: string
  applianceType :: string
  ratingType :: EnergyMode
  ratingValue :: real
  powerKW :: real
  usageHours :: real
  unitsConsumed :: real
  cost :: real

record UserDailyUsage =
  userId :: string
  date :: string
  totalUnits :: real
  totalCost :: real
  isEstimated :: bool
  appliances :: "DailyApplianceEntry list"
  id' :: string
  createdAt :: int
  updatedAt :: int

record TariffSlab =
  slab_min :: real
  slab_max :: "real option"
  rate :: real

record StateTariff =
  id' :: string
  name :: string
  fixedCharge :: real
  slabs :: "TariffSlab list"

record SolarConfig =
  isInstalled :: bool
  ratingKw :: real

section \<open>Saving a daily log (App, \<open>handleSaveLog\<close>)\<close>

text \<open>
  The state updater passed to \<open>setDailyLogs\<close>: when some log of the list has the
  date of the new one, every log with that date is mapped to the new log; otherwise
  the new log is appended.
\<close>

definition handleSaveLog :: "UserDailyUsage list \<Rightarrow> UserDailyUsage \<Rightarrow> UserDailyUsage list" where
  "handleSaveLog prev newLog =
     (case find (\<lambda>l. UserDailyUsage.date l = UserDailyUsage.date newLog) prev of
        Some _ \<Rightarrow> map (\<lambda>l. if UserDailyUsage.date l = UserDailyUsage.date newLog then newLog else l) prev
      | None \<Rightarrow> prev @ [newLog])"

text \<open>The updater of \<open>handleUndoLast\<close>: \<open>prev.slice(0, -1)\<close>.\<close>

definition handleUndoLast :: "UserDailyUsage list \<Rightarrow> UserDailyUsage list" where
  "handleUndoLast prev = butlast prev"

section \<open>The record of the monthly summary\<close>

text \<open>
  The object returned by the \<open>summary\<close> memo of DailyCalendar: the fields of
  \<open>MonthlyUsageSummary\<close> and the extra \<open>estRemainderCost\<close>; \<open>confidenceScore\<close> is
  \<open>number | null\<close>.
\<close>

record MonthlyUsageSummary =
  month :: string
  totalUnits :: real
  totalCost :: real
  subsidyLimit :: real
  subsidyUsed :: real
  slabCrossed :: bool
  projectedBill :: real
  projectedUnits :: real
  confidenceScore :: "real option"
  isStabilized :: bool
  estRemainderCost :: real

section \<open>The clock and the strings built from it (DailyCalendar)\<close>

text \<open>
  The component reads the system clock with \<open>new Date()\<close>. One reading is a record
  of what the calls return at that instant: \<open>toISOString()\<close> (UTC), \<open>getFullYear()\<close>
  and \<open>getMonth()\<close> (local time, the month counted from 0), \<open>getTime()\<close> and the
  local midnight that \<open>setHours(0,0,0,0)\<close> returns, both in milliseconds.
\<close>

record Clock =
  isoString :: string
  fullYear :: int
  monthIndex :: nat
  nowMs :: int
  midnightMs :: int

text \<open>\<open>new Date().toISOString().slice(0, 7)\<close>\<close>

definition currentMonth :: "Clock \<Rightarrow> string" where
  "currentMonth c = take 7 (isoString c)"

definition isLeapYear :: "int \<Rightarrow> bool" where
  "isLeapYear y = (y mod 4 = 0 \<and> (y mod 100 \<noteq> 0 \<or> y mod 400 = 0))"

text \<open>
  \<open>new Date(y, m + 1, 0).getDate()\<close>: day 0 of the next month is the last day of
  month \<open>m\<close> in the Gregorian calendar; \<open>getMonth()\<close> returns 0 (January) to 11
  (December). The Date constructor reads a year from 0 to 99 as 1900 plus that year.
\<close>

definition lastDayOfMonth :: "int \<Rightarrow> nat \<Rightarrow> nat" where
  "lastDayOfMonth y m =
     (let y' = (if 0 \<le> y \<and> y \<le> 99 then 1900 + y else y)
      in if m = 1 then (if isLeapYear y' then 29 else 28)
         else if m = 3 \<or> m = 5 \<or> m = 8 \<or> m = 10 then 30
         else 31)"

definition daysInMonth :: "Clock \<Rightarrow> nat" where
  "daysInMonth c = lastDayOfMonth (fullYear c) (monthIndex c)"

text \<open>\<open>s.startsWith(p)\<close>\<close>

definition startsWith :: "string \<Rightarrow> string \<Rightarrow> bool" where
  "startsWith s p = (take (length p) s = p)"

text \<open>\<open>i.toString()\<close> for a non-negative integer: its decimal digits.\<close>

definition digitChar :: "nat \<Rightarrow> char" where
  "digitChar d = ''0123456789'' ! d"

fun toString :: "nat \<Rightarrow> string" where
  "toString n = (if n < 10 then [digitChar n] else toString (n div 10) @ [digitChar (n mod 10)])"

declare toString.simps [simp del]

text \<open>\<open>s.padStart(n, c)\<close> with a one-character pad: nothing is added to a string
  of length \<open>n\<close> or more (the subtraction on \<open>nat\<close> stops at 0).\<close>

definition padStart :: "nat \<Rightarrow> char \<Rightarrow> string \<Rightarrow> string" where
  "padStart n c s = replicate (n - length s) c @ s"

text \<open>The template string \<open>`${currentMonth}-${i.toString().padStart(2, '0')}`\<close>.\<close>

definition dateStr :: "Clock \<Rightarrow> nat \<Rightarrow> string" where
  "dateStr c i = currentMonth c @ ''-'' @ padStart 2 CHR ''0'' (toString i)"

section \<open>The month's logs and its summary (DailyCalendar)\<close>

text \<open>
  \<open>logs.filter(l => l.date.startsWith(currentMonth)).sort((a,b) => a.date.localeCompare(b.date))\<close>.
  The sort of JavaScript is stable; \<open>localeCompare\<close> is taken as the lexicographic
  order of the characters, with which it agrees on strings of digits and hyphens.
  The results below use of the sort only that it is a stable rearrangement.
\<close>

definition monthLogs :: "Clock \<Rightarrow> UserDailyUsage list \<Rightarrow> UserDailyUsage list" where
  "monthLogs c logs =
     sort_key UserDailyUsage.date
       (filter (\<lambda>l. startsWith (UserDailyUsage.date l) (currentMonth c)) logs)"

text \<open>
  Modelled from the spec: the value of \<open>calculateProgressiveBill\<close> (utils/calculator,
  missing from the sources), with the fields of section 4.2. DailyCalendar reads only
  \<open>total\<close>.
\<close>

record BillBreakdown =
  energyCost :: real
  fixedCharge :: real
  total :: real
  slabBreakdown :: "real list"

text \<open>The local constants of the \<open>summary\<close> memo that the returned object does not hold.\<close>

definition monthTotalUnits :: "UserDailyUsage list \<Rightarrow> real" where
  "monthTotalUnits mLogs = foldl (\<lambda>sum l. sum + UserDailyUsage.totalUnits l) 0 mLogs"

definition daysLogged :: "UserDailyUsage list \<Rightarrow> nat" where
  "daysLogged mLogs = length mLogs"

definition baselineDaily ::
  "(Appliance \<Rightarrow> Season \<Rightarrow> real) \<Rightarrow> Appliance list \<Rightarrow> Season \<Rightarrow> real" where
  "baselineDaily calculateApplianceUnits inventory season =
     foldl (\<lambda>sum a. sum + calculateApplianceUnits a season / 30) 0 inventory"

definition avgUnitsPerDay ::
  "(Appliance \<Rightarrow> Season \<Rightarrow> real) \<Rightarrow> UserDailyUsage list \<Rightarrow> Appliance list \<Rightarrow> Season \<Rightarrow> real" where
  "avgUnitsPerDay calculateApplianceUnits mLogs inventory season =
     (if daysLogged mLogs > 0 then monthTotalUnits mLogs / real (daysLogged mLogs)
      else baselineDaily calculateApplianceUnits inventory season)"

text \<open>
  The \<open>summary\<close> memo. \<open>calculateApplianceUnits\<close> and \<open>calculateProgressiveBill\<close> are
  imported from utils/calculator, which is not among the sources: they are
  parameters here, the first returning a number, as its use under \<open>/ 30\<close> requires.
\<close>

definition summary ::
  "Clock \<Rightarrow> (Appliance \<Rightarrow> Season \<Rightarrow> real) \<Rightarrow> (real \<Rightarrow> StateTariff \<Rightarrow> BillBreakdown) \<Rightarrow>
   UserDailyUsage list \<Rightarrow> StateTariff \<Rightarrow> Appliance list \<Rightarrow> SubsidyConfig \<Rightarrow> Season \<Rightarrow>
   MonthlyUsageSummary" where
  "summary c calculateApplianceUnits calculateProgressiveBill logs stateTariff inventory
     subsidyConfig season =
     (let mLogs = monthLogs c logs;
          totalUnits = monthTotalUnits mLogs;
          avg = avgUnitsPerDay calculateApplianceUnits mLogs inventory season;
          projectedUnits = avg * real (daysInMonth c);
          isStabilized = (daysLogged mLogs \<ge> 7);
          confidenceScore =
            (if daysLogged mLogs \<ge> 10
             then Some (min 99 (65 + (real (daysLogged mLogs) / real (daysInMonth c)) * 35))
             else None);
          projectedBillTotal = calculateProgressiveBill projectedUnits stateTariff;
          mtdBillCost = calculateProgressiveBill totalUnits stateTariff;
          estRemainderCost = max 0 (total projectedBillTotal - total mtdBillCost)
      in \<lparr> month = currentMonth c,
           MonthlyUsageSummary.totalUnits = totalUnits,
           MonthlyUsageSummary.totalCost = total mtdBillCost,
           subsidyLimit = limitUnits subsidyConfig,
           subsidyUsed = min totalUnits (limitUnits subsidyConfig),
           slabCrossed = (totalUnits > limitUnits subsidyConfig),
           projectedBill = total projectedBillTotal,
           projectedUnits = projectedUnits,
           confidenceScore = confidenceScore,
           isStabilized = isStabilized,
           estRemainderCost = estRemainderCost \<rparr>)"

section \<open>Numbers at run time (IEEE 754 doubles)\<close>

text \<open>
  A JavaScript number that arises in the calendar: a finite double, given by its
  real value, or one of the two infinities. The numbers of the logs and of the subsidy
  configuration are finite, so no NaN arises; \<open>-0\<close> and \<open>0\<close>, which no comparison
  of the calendar tells apart, are both \<open>Fin 0\<close>.
\<close>

datatype jsnum = Fin real | PInf | NInf

text \<open>
  Rounding a real to the nearest double (IEEE 754 binary64, round to nearest, ties
  to even), which is what \<open>+\<close> and \<open>*\<close> do to the exact result. \<open>pow2 k\<close> is 2 to
  the power \<open>k\<close>. The doubles of magnitude between \<open>pow2 e\<close> and \<open>pow2 (e + 1)\<close> are the
  multiples of \<open>pow2 (e - 52)\<close>, for \<open>e\<close> from -1022 on; those of magnitude below
  \<open>pow2 (-1022)\<close> are the multiples of \<open>pow2 (-1074)\<close>; a rounded magnitude of
  \<open>pow2 1024\<close> or more is an infinity.
\<close>

definition pow2 :: "int \<Rightarrow> real" where
  "pow2 k = (if 0 \<le> k then 2 ^ nat k else 1 / 2 ^ nat (- k))"

definition roundHalfEven :: "real \<Rightarrow> int" where
  "roundHalfEven r =
     (let f = \<lfloor>r\<rfloor>; d = r - of_int f
      in if d < 1 / 2 then f else if 1 / 2 < d then f + 1 else if even f then f else f + 1)"

definition binade :: "real \<Rightarrow> int" where
  "binade x = max \<lfloor>log 2 \<bar>x\<bar>\<rfloor> (- 1022)"

definition nearest64 :: "real \<Rightarrow> real" where
  "nearest64 x =
     of_int (roundHalfEven (x / pow2 (binade x - 52))) * pow2 (binade x - 52)"

definition round64 :: "real \<Rightarrow> jsnum" where
  "round64 x =
     (if x = 0 then Fin 0
      else if 2 ^ 1024 \<le> \<bar>nearest64 x\<bar> then (if 0 < x then PInf else NInf)
      else Fin (nearest64 x))"

text \<open>
  \<open>cumulativeUnits += log.totalUnits\<close>, the units of a log being finite.
\<close>

fun addUnits :: "jsnum \<Rightarrow> real \<Rightarrow> jsnum" where
  "addUnits (Fin a) u = round64 (a + u)"
| "addUnits PInf u = PInf"
| "addUnits NInf u = NInf"

text \<open>
  \<open>a >= b\<close>.
\<close>

fun geq :: "jsnum \<Rightarrow> jsnum \<Rightarrow> bool" where
  "geq (Fin a) (Fin b) = (a \<ge> b)"
| "geq (Fin a) PInf = False"
| "geq (Fin a) NInf = True"
| "geq PInf b = True"
| "geq NInf NInf = True"
| "geq NInf b = False"

text \<open>
  The literal \<open>0.85\<close> is the double nearest to 0.85, and \<open>0.85 * limit\<close> the rounded
  product.
\<close>

definition double085 :: real where
  "double085 = 7656119366529843 / 2 ^ 53"

fun times085 :: "jsnum \<Rightarrow> jsnum" where
  "times085 (Fin l) = round64 (double085 * l)"
| "times085 PInf = PInf"
| "times085 NInf = NInf"

text \<open>
  The reals that are values of finite doubles.
\<close>

definition isDouble :: "real \<Rightarrow> bool" where
  "isDouble x = (round64 x = Fin x)"

section \<open>The calendar grid (DailyCalendar, \<open>calendarDays\<close>)\<close>

datatype DayStatus = Safe | Warning | Critical | NoStatus

text \<open>
  \<open>const limit = subsidyConfig.limitUnits || Infinity\<close>: 0 is falsy.
\<close>

definition limitOf :: "SubsidyConfig \<Rightarrow> jsnum" where
  "limitOf subsidyConfig =
     (if limitUnits subsidyConfig = 0 then PInf else Fin (limitUnits subsidyConfig))"

record CalendarDay =
  date :: string
  dayNum :: nat
  dayLog :: "UserDailyUsage option"
  status :: DayStatus
  isFuture :: bool
  isEstimated :: bool

text \<open>
  One pass of the loop body for day \<open>i\<close>, from the cumulative units before it: the
  cumulative units after it and the cell pushed. \<open>parseDate\<close> stands for
  \<open>new Date(dateStr).getTime()\<close>, \<open>None\<close> for an invalid date, against which every
  comparison is false. The clock is read when the body runs; the instants read in
  the passes of one render are taken as one instant, which only \<open>isFuture\<close> and
  \<open>isEstimated\<close> could tell apart.
\<close>

definition dayCell ::
  "Clock \<Rightarrow> (string \<Rightarrow> int option) \<Rightarrow> UserDailyUsage list \<Rightarrow> jsnum \<Rightarrow> nat \<Rightarrow> jsnum \<Rightarrow>
   jsnum \<times> CalendarDay" where
  "dayCell c parseDate mLogs limit i cumulativeUnits =
     (let ds = dateStr c i;
          found = find (\<lambda>l. UserDailyUsage.date l = ds) mLogs;
          isPast = (case parseDate ds of Some t \<Rightarrow> t < midnightMs c | None \<Rightarrow> False);
          cumulativeUnits' =
            (case found of Some l \<Rightarrow> addUnits cumulativeUnits (UserDailyUsage.totalUnits l)
                         | None \<Rightarrow> cumulativeUnits);
          st = (case found of
                  None \<Rightarrow> NoStatus
                | Some _ \<Rightarrow>
                    if geq cumulativeUnits' limit then Critical
                    else if geq cumulativeUnits' (times085 limit) then Warning
                    else Safe)
      in (cumulativeUnits',
          \<lparr> CalendarDay.date = ds, dayNum = i, dayLog = found, status = st,
            isFuture = (case parseDate ds of Some t \<Rightarrow> t > nowMs c | None \<Rightarrow> False),
            isEstimated = (isPast \<and> found = None) \<rparr>))"

text \<open>The loop \<open>for (let i = 1; i <= daysInMonth; i++)\<close>.\<close>

function calendarLoop ::
  "Clock \<Rightarrow> (string \<Rightarrow> int option) \<Rightarrow> UserDailyUsage list \<Rightarrow> jsnum \<Rightarrow> nat \<Rightarrow> jsnum \<Rightarrow>
   CalendarDay list \<Rightarrow> CalendarDay list" where
  "calendarLoop c parseDate mLogs limit i cumulativeUnits days =
     (if i \<le> daysInMonth c
      then calendarLoop c parseDate mLogs limit (i + 1)
             (fst (dayCell c parseDate mLogs limit i cumulativeUnits))
             (days @ [snd (dayCell c parseDate mLogs limit i cumulativeUnits)])
      else days)"
  by pat_completeness auto
termination
  by (relation "measure (\<lambda>(c, parseDate, mLogs, limit, i, cumulativeUnits, days).
                            Suc (daysInMonth c) - i)") auto

declare calendarLoop.simps [simp del]

text \<open>
  The function passed to \<open>useMemo\<close> for \<open>calendarDays\<close>: it starts from
  \<open>cumulativeUnits = 0\<close> and an empty array, on the month's logs that the component
  holds.
\<close>

definition computeCalendarDays ::
  "Clock \<Rightarrow> (string \<Rightarrow> int option) \<Rightarrow> UserDailyUsage list \<Rightarrow> SubsidyConfig \<Rightarrow> CalendarDay list" where
  "computeCalendarDays c parseDate mLogs subsidyConfig =
     calendarLoop c parseDate mLogs (limitOf subsidyConfig) 1 (Fin 0) []"

text \<open>
  The value of \<open>cumulativeUnits\<close> after the pass for day \<open>j\<close>, and after the passes
  for the days 1 to \<open>i\<close>.
\<close>

definition addDay :: "Clock \<Rightarrow> UserDailyUsage list \<Rightarrow> jsnum \<Rightarrow> nat \<Rightarrow> jsnum" where
  "addDay c mLogs cumulativeUnits j =
     (case find (\<lambda>l. UserDailyUsage.date l = dateStr c j) mLogs of
        Some l \<Rightarrow> addUnits cumulativeUnits (UserDailyUsage.totalUnits l)
      | None \<Rightarrow> cumulativeUnits)"

definition runningTotal :: "Clock \<Rightarrow> UserDailyUsage list \<Rightarrow> nat \<Rightarrow> jsnum" where
  "runningTotal c mLogs i = foldl (addDay c mLogs) (Fin 0) [1..<Suc i]"

text \<open>
  The cumulative logged units up to and including day \<open>i\<close>, in the words of the
  specification: the units of the logs dated on the days 1 to \<open>i\<close> of the current
  month, added up in the order of the days.
\<close>

definition logsUpTo :: "Clock \<Rightarrow> UserDailyUsage list \<Rightarrow> nat \<Rightarrow> UserDailyUsage list" where
  "logsUpTo c logs i =
     concat (map (\<lambda>j. filter (\<lambda>l. UserDailyUsage.date l = dateStr c j) logs) [1..<Suc i])"

definition cumulativeLoggedUnits :: "Clock \<Rightarrow> UserDailyUsage list \<Rightarrow> nat \<Rightarrow> jsnum" where
  "cumulativeLoggedUnits c logs i =
     foldl addUnits (Fin 0) (map UserDailyUsage.totalUnits (logsUpTo c logs i))"

text \<open>\<open>a < b\<close>; no NaN arises, so it is the negation of \<open>a >= b\<close>.\<close>

definition below :: "jsnum \<Rightarrow> jsnum \<Rightarrow> bool" where
  "below a b = (\<not> geq a b)"

section \<open>The component and its memoized values (DailyCalendar)\<close>

text \<open>
  \<open>useMemo(compute, deps)\<close>: the value computed at the first render, or at the last
  render whose dependencies were not those of the render before it. The cache of
  one \<open>useMemo\<close> call is the dependencies and the value of that render.
\<close>

definition useMemo :: "'d \<Rightarrow> 'v \<Rightarrow> ('d \<times> 'v) option \<Rightarrow> 'v \<times> ('d \<times> 'v) option" where
  "useMemo deps computed cache =
     (case cache of
        Some (d, v) \<Rightarrow> if d = deps then (v, cache) else (computed, Some (deps, computed))
      | None \<Rightarrow> (computed, Some (deps, computed)))"

text \<open>
  React compares dependencies with \<open>Object.is\<close>: strings and numbers by value, arrays
  and objects by identity. The arrays and objects passed as props are therefore
  addresses into a heap. The App never changes an array or object of its state in
  place (every update builds a new one), so the heap is fixed and an update is a
  new address.
\<close>

record Heap =
  logsAt :: "nat \<Rightarrow> UserDailyUsage list"
  tariffAt :: "nat \<Rightarrow> StateTariff"
  inventoryAt :: "nat \<Rightarrow> Appliance list"
  subsidyAt :: "nat \<Rightarrow> SubsidyConfig"

text \<open>
  The props \<open>logs\<close>, \<open>stateTariff\<close>, \<open>inventory\<close>, \<open>subsidyConfig\<close> and \<open>season\<close>;
  \<open>lang\<close> and the two callbacks do not reach the summary or the calendar.
\<close>

record Props =
  logsRef :: nat
  stateTariffRef :: nat
  inventoryRef :: nat
  subsidyConfigRef :: nat
  seasonProp :: Season

text \<open>
  The state that one mounted component keeps between renders: the caches of its
  three \<open>useMemo\<close> calls, and the number of renders so far, which serves as the
  identity of the array that the \<open>monthLogs\<close> memo builds in a render.
\<close>

record Hooks =
  renderCount :: nat
  monthLogsMemo :: "((nat \<times> string) \<times> (nat \<times> UserDailyUsage list)) option"
  summaryMemo ::
    "((nat \<times> nat \<times> nat \<times> nat \<times> string \<times> nat \<times> Season) \<times> MonthlyUsageSummary) option"
  calendarDaysMemo :: "((string \<times> nat \<times> nat \<times> nat) \<times> CalendarDay list) option"

definition mountHooks :: Hooks where
  "mountHooks = \<lparr> renderCount = 0, monthLogsMemo = None, summaryMemo = None,
                   calendarDaysMemo = None \<rparr>"

text \<open>
  The function passed to \<open>useMemo\<close> for \<open>summary\<close>, on the month's logs that the
  component holds; \<open>summary\<close> above is this function on \<open>monthLogs\<close> computed afresh.
\<close>

definition summaryOfMonth ::
  "Clock \<Rightarrow> (Appliance \<Rightarrow> Season \<Rightarrow> real) \<Rightarrow> (real \<Rightarrow> StateTariff \<Rightarrow> BillBreakdown) \<Rightarrow>
   UserDailyUsage list \<Rightarrow> StateTariff \<Rightarrow> Appliance list \<Rightarrow> SubsidyConfig \<Rightarrow> Season \<Rightarrow>
   MonthlyUsageSummary" where
  "summaryOfMonth c calculateApplianceUnits calculateProgressiveBill mLogs stateTariff inventory
     subsidyConfig season =
     (let totalUnits = monthTotalUnits mLogs;
          avg = avgUnitsPerDay calculateApplianceUnits mLogs inventory season;
          projectedUnits = avg * real (daysInMonth c);
          isStabilized = (daysLogged mLogs \<ge> 7);
          confidenceScore =
            (if daysLogged mLogs \<ge> 10
             then Some (min 99 (65 + (real (daysLogged mLogs) / real (daysInMonth c)) * 35))
             else None);
          projectedBillTotal = calculateProgressiveBill projectedUnits stateTariff;
          mtdBillCost = calculateProgressiveBill totalUnits stateTariff;
          estRemainderCost = max 0 (total projectedBillTotal - total mtdBillCost)
      in \<lparr> month = currentMonth c,
           MonthlyUsageSummary.totalUnits = totalUnits,
           MonthlyUsageSummary.totalCost = total mtdBillCost,
           subsidyLimit = limitUnits subsidyConfig,
           subsidyUsed = min totalUnits (limitUnits subsidyConfig),
           slabCrossed = (totalUnits > limitUnits subsidyConfig),
           projectedBill = total projectedBillTotal,
           projectedUnits = projectedUnits,
           confidenceScore = confidenceScore,
           isStabilized = isStabilized,
           estRemainderCost = estRemainderCost \<rparr>)"

text \<open>What a render hands to the markup: the summary and the calendar cells.\<close>

record Rendered =
  summaryShown :: MonthlyUsageSummary
  calendarDays :: "CalendarDay list"

text \<open>
  One render of the component, with one reading of the clock. \<open>currentMonth\<close> and
  \<open>daysInMonth\<close> are computed at every render. \<open>monthLogs\<close> is memoized on
  \<open>[logs, currentMonth]\<close>, \<open>summary\<close> on \<open>[monthLogs, stateTariff, inventory, daysInMonth,
  currentMonth, subsidyConfig, season]\<close> and \<open>calendarDays\<close> on \<open>[currentMonth,
  daysInMonth, monthLogs, subsidyConfig]\<close>.
\<close>

definition render ::
  "Clock \<Rightarrow> (Appliance \<Rightarrow> Season \<Rightarrow> real) \<Rightarrow> (real \<Rightarrow> StateTariff \<Rightarrow> BillBreakdown) \<Rightarrow>
   (string \<Rightarrow> int option) \<Rightarrow> Heap \<Rightarrow> Props \<Rightarrow> Hooks \<Rightarrow> Rendered \<times> Hooks" where
  "render c calculateApplianceUnits calculateProgressiveBill parseDate heap props hooks =
     (let (mLogs, m1) =
            useMemo (logsRef props, currentMonth c)
              (renderCount hooks, monthLogs c (logsAt heap (logsRef props)))
              (monthLogsMemo hooks);
          (summ, m2) =
            useMemo (fst mLogs, stateTariffRef props, inventoryRef props, daysInMonth c,
                     currentMonth c, subsidyConfigRef props, seasonProp props)
              (summaryOfMonth c calculateApplianceUnits calculateProgressiveBill (snd mLogs)
                 (tariffAt heap (stateTariffRef props)) (inventoryAt heap (inventoryRef props))
                 (subsidyAt heap (subsidyConfigRef props)) (seasonProp props))
              (summaryMemo hooks);
          (days, m3) =
            useMemo (currentMonth c, daysInMonth c, fst mLogs, subsidyConfigRef props)
              (computeCalendarDays c parseDate (snd mLogs)
                 (subsidyAt heap (subsidyConfigRef props)))
              (calendarDaysMemo hooks)
      in (\<lparr> summaryShown = summ, calendarDays = days \<rparr>,
          \<lparr> renderCount = Suc (renderCount hooks), monthLogsMemo = m1, summaryMemo = m2,
            calendarDaysMemo = m3 \<rparr>))"

text \<open>
  The states a mounted component can be in: that of the mount, and that after a
  render, at any clock reading and with any props, from a state it can be in.
\<close>

inductive reachable ::
  "(Appliance \<Rightarrow> Season \<Rightarrow> real) \<Rightarrow> (real \<Rightarrow> StateTariff \<Rightarrow> BillBreakdown) \<Rightarrow>
   (string \<Rightarrow> int option) \<Rightarrow> Heap \<Rightarrow> Hooks \<Rightarrow> bool"
  for calc :: "Appliance \<Rightarrow> Season \<Rightarrow> real"
    and bill :: "real \<Rightarrow> StateTariff \<Rightarrow> BillBreakdown"
    and parseDate :: "string \<Rightarrow> int option"
    and heap :: Heap
  where
    mounted: "reachable calc bill parseDate heap mountHooks"
  | rendered: "reachable calc bill parseDate heap hooks \<Longrightarrow>
               reachable calc bill parseDate heap
                 (snd (render c calc bill parseDate heap props hooks))"

text \<open>
  The fields of a cell that the loop computes without reading the clock's instant:
  all but \<open>isFuture\<close> and \<open>isEstimated\<close>.
\<close>

definition unclocked :: "CalendarDay \<Rightarrow> string \<times> nat \<times> UserDailyUsage option \<times> DayStatus" where
  "unclocked d = (CalendarDay.date d, dayNum d, dayLog d, status d)"

text \<open>
  What holds of the caches in every state the component can be in. The array of the
  \<open>monthLogs\<close> cache was built in an earlier render and is the month's logs of its
  dependencies. A cached summary or calendar whose \<open>monthLogs\<close> dependency is the
  array of the \<open>monthLogs\<close> cache is what its function computes from that array
  and its other dependencies; for the calendar, up to the fields that follow the
  instant of the computation.
\<close>

definition consistent ::
  "(Appliance \<Rightarrow> Season \<Rightarrow> real) \<Rightarrow> (real \<Rightarrow> StateTariff \<Rightarrow> BillBreakdown) \<Rightarrow>
   (string \<Rightarrow> int option) \<Rightarrow> Heap \<Rightarrow> Hooks \<Rightarrow> bool" where
  "consistent calc bill parseDate heap hooks =
     ((\<forall>a cm k ml. monthLogsMemo hooks = Some ((a, cm), (k, ml)) \<longrightarrow>
          k < renderCount hooks
          \<and> (\<forall>c. currentMonth c = cm \<longrightarrow> ml = monthLogs c (logsAt heap a)))
      \<and> (\<forall>k ta ia dim cm sa se s.
            summaryMemo hooks = Some ((k, ta, ia, dim, cm, sa, se), s) \<longrightarrow>
              k < renderCount hooks
              \<and> (\<forall>a cm' ml c.
                    monthLogsMemo hooks = Some ((a, cm'), (k, ml))
                    \<and> currentMonth c = cm \<and> daysInMonth c = dim \<longrightarrow>
                      s = summaryOfMonth c calc bill ml (tariffAt heap ta) (inventoryAt heap ia)
                            (subsidyAt heap sa) se))
      \<and> (\<forall>cm dim k sa days.
            calendarDaysMemo hooks = Some ((cm, dim, k, sa), days) \<longrightarrow>
              k < renderCount hooks
              \<and> (\<forall>a cm' ml c.
                    monthLogsMemo hooks = Some ((a, cm'), (k, ml))
                    \<and> currentMonth c = cm \<and> daysInMonth c = dim \<longrightarrow>
                      map unclocked days
                        = map unclocked
                            (computeCalendarDays c parseDate ml (subsidyAt heap sa)))))"

section \<open>The calculation engine (utils/calculator)\<close>

text \<open>
  utils/calculator is not among the sources; the functions of this section follow
  the specification of the engine, sections 3, 4.1 to 4.4 and 7.
\<close>

text \<open>
  Modelled from the spec: the two kinds of error of the engine (section 7), whose
  code is missing from the sources.
\<close>

datatype EngineError = ValidationError | ConfigurationError

text \<open>
  Modelled from the spec: the letter grade \<open>'A' | 'B' | 'C' | 'D' | 'E'\<close> of
  \<open>CalculationResult.efficiencyScore\<close> (types.ts), computed by the missing engine.
\<close>

datatype EfficiencyScore = GradeA | GradeB | GradeC | GradeD | GradeE

text \<open>
  Modelled from the spec: the configuration constants of utils/calculator, which the
  specification names without fixing their values: the seasonal multiplier table,
  the power in kW derived from a capacity in tons and an efficiency ratio, the solar
  units generated per rated kW in a month, and the banding of total units into a
  letter grade.
\<close>

record EngineConfig =
  seasonalMultiplier :: "Season \<Rightarrow> real"
  derivedKw :: "real \<Rightarrow> real \<Rightarrow> real"
  solarUnitsPerKw :: real
  gradeOf :: "real \<Rightarrow> EfficiencyScore"

text \<open>
  Modelled from the spec: \<open>computeMonthlyUnits\<close> (ApplianceEnergyModel, section 4.1) is
  missing from the sources. Standard mode: watts \<open>\<times>\<close> hoursPerDay \<open>\<times>\<close> daysPerMonth \<open>\<times>\<close>
  quantity / 1000, times the seasonal multiplier only for the categories cooling and
  heating. BEE annual mode: annualUnits / 12 \<open>\<times>\<close> quantity, seasonally adjusted for
  cooling only. ISEER and EER modes: derived kW \<open>\<times>\<close> hoursPerDay \<open>\<times>\<close> daysPerMonth \<open>\<times>\<close>
  quantity, seasonally adjusted. A missing field of the mode, or a negative value
  among the fields of the mode, is a ValidationError.
\<close>

definition computeMonthlyUnits :: "EngineConfig \<Rightarrow> Appliance \<Rightarrow> Season \<Rightarrow> EngineError + real" where
  "computeMonthlyUnits cfg a season =
     (case inputMode a of
        Standard \<Rightarrow>
          if watts a < 0 \<or> hoursPerDay a < 0 \<or> daysPerMonth a < 0 \<or> quantity a < 0
          then Inl ValidationError
          else Inr (let units = watts a * hoursPerDay a * daysPerMonth a * quantity a / 1000
                    in if category a = Cooling \<or> category a = Heating
                       then units * seasonalMultiplier cfg season else units)
      | Bee_annual \<Rightarrow>
          (case annualUnits a of
             None \<Rightarrow> Inl ValidationError
           | Some au \<Rightarrow>
               if au < 0 \<or> quantity a < 0 then Inl ValidationError
               else Inr (let units = au / 12 * quantity a
                         in if category a = Cooling
                            then units * seasonalMultiplier cfg season else units))
      | Iseer \<Rightarrow>
          (case (capacityTon a, iseer a) of
             (Some ton, Some ratio) \<Rightarrow>
               if ton < 0 \<or> ratio < 0 \<or> hoursPerDay a < 0 \<or> daysPerMonth a < 0 \<or> quantity a < 0
               then Inl ValidationError
               else Inr (derivedKw cfg ton ratio * hoursPerDay a * daysPerMonth a * quantity a
                           * seasonalMultiplier cfg season)
           | _ \<Rightarrow> Inl ValidationError)
      | Eer \<Rightarrow>
          (case (capacityTon a, eer a) of
             (Some ton, Some ratio) \<Rightarrow>
               if ton < 0 \<or> ratio < 0 \<or> hoursPerDay a < 0 \<or> daysPerMonth a < 0 \<or> quantity a < 0
               then Inl ValidationError
               else Inr (derivedKw cfg ton ratio * hoursPerDay a * daysPerMonth a * quantity a
                           * seasonalMultiplier cfg season)
           | _ \<Rightarrow> Inl ValidationError))"

text \<open>
  Modelled from the spec: the quantity billed in one slab by the missing
  \<open>calculateProgressiveBill\<close> (section 4.2), \<open>min(units, slab.max ?? \<infinity>) - slab.min\<close>
  clamped at 0.
\<close>

definition slabUnits :: "real \<Rightarrow> TariffSlab \<Rightarrow> real" where
  "slabUnits units slab =
     max 0 ((case slab_max slab of None \<Rightarrow> units | Some m \<Rightarrow> min units m) - slab_min slab)"

text \<open>
  Modelled from the spec: \<open>calculateProgressiveBill\<close> (ProgressiveTariffEngine, section
  4.2) is missing from the sources. Each slab costs its billed quantity times its
  rate; the fixed charge is added once, whatever the units.
\<close>

definition calculateProgressiveBill :: "real \<Rightarrow> StateTariff \<Rightarrow> BillBreakdown" where
  "calculateProgressiveBill units tariff =
     (let costs = map (\<lambda>slab. slabUnits units slab * rate slab) (slabs tariff)
      in \<lparr> energyCost = sum_list costs,
           BillBreakdown.fixedCharge = StateTariff.fixedCharge tariff,
           total = sum_list costs + StateTariff.fixedCharge tariff,
           slabBreakdown = costs \<rparr>)"

text \<open>
  Modelled from the spec: the slabs of a valid tariff (section 3) are contiguous and
  ordered by ascending lower bound, and exactly the last one is unbounded. The check
  belongs to the missing \<open>getFullCalculation\<close>.
\<close>

fun contiguousSlabs :: "TariffSlab list \<Rightarrow> bool" where
  "contiguousSlabs [] = False"
| "contiguousSlabs [s] = (slab_max s = None)"
| "contiguousSlabs (s # t # rest) =
     (slab_max s = Some (slab_min t) \<and> slab_min s < slab_min t \<and> contiguousSlabs (t # rest))"

text \<open>
  Modelled from the spec: the validity of a tariff schedule that the missing
  \<open>getFullCalculation\<close> checks (sections 3 and 4.4): slabs as above, and no negative
  bound, rate or fixed charge.
\<close>

definition validTariff :: "StateTariff \<Rightarrow> bool" where
  "validTariff tariff =
     (contiguousSlabs (slabs tariff) \<and> 0 \<le> StateTariff.fixedCharge tariff
      \<and> list_all (\<lambda>s. 0 \<le> slab_min s \<and> 0 \<le> rate s) (slabs tariff))"

text \<open>
  Modelled from the spec: the value of the missing \<open>applySubsidy\<close> (section 4.3).
\<close>

record SubsidyResult =
  subsidizedUnits :: real
  billableUnits :: real
  remainingSubsidyUnits :: real

text \<open>
  Modelled from the spec: \<open>applySubsidy\<close> (SubsidyAdjuster, section 4.3) is missing from
  the sources. Type none: nothing is subsidized. Types government and company: the
  first limitUnits units are subsidized, the rest is billable.
\<close>

definition applySubsidy :: "real \<Rightarrow> SubsidyConfig \<Rightarrow> SubsidyResult" where
  "applySubsidy units subsidyConfig =
     (case type subsidyConfig of
        NoSubsidy \<Rightarrow>
          \<lparr> subsidizedUnits = 0, billableUnits = units, remainingSubsidyUnits = 0 \<rparr>
      | Government \<Rightarrow>
          \<lparr> subsidizedUnits = min units (limitUnits subsidyConfig),
            billableUnits = max 0 (units - limitUnits subsidyConfig),
            remainingSubsidyUnits = max 0 (limitUnits subsidyConfig - units) \<rparr>
      | Company \<Rightarrow>
          \<lparr> subsidizedUnits = min units (limitUnits subsidyConfig),
            billableUnits = max 0 (units - limitUnits subsidyConfig),
            remainingSubsidyUnits = max 0 (limitUnits subsidyConfig - units) \<rparr>)"

text \<open>
  The interfaces \<open>ApplianceBreakdown\<close> and \<open>CalculationResult\<close> of types.ts, the latter
  without its \<open>id\<close>, of which the specification says nothing.
\<close>

record ApplianceBreakdown =
  appliance :: Appliance
  units :: real
  cost :: real
  percentage :: real

record CalculationResult =
  totalUnits :: real
  solarGeneratedUnits :: real
  netUnits :: real
  subsidizedUnits :: real
  billableUnits :: real
  totalCost :: real
  energyCost :: real
  fixedCharge :: real
  applianceBreakdown :: "ApplianceBreakdown list"
  highestConsumer :: "ApplianceBreakdown option"
  topConsumers :: "ApplianceBreakdown list"
  efficiencyScore :: EfficiencyScore
  subsidyConfig :: SubsidyConfig
  season :: Season
  remainingSubsidyUnits :: real
  seasonalImpact :: real
  seasonalProjections :: "Season \<Rightarrow> real"

text \<open>
  Modelled from the spec: step 1 of \<open>getFullCalculation\<close> (section 4.4), the monthly
  units of every appliance of the inventory; the first ValidationError stops it.
\<close>

fun unitsOfAll :: "EngineConfig \<Rightarrow> Appliance list \<Rightarrow> Season \<Rightarrow> EngineError + real list" where
  "unitsOfAll cfg [] s = Inr []"
| "unitsOfAll cfg (a # rest) s =
     (case computeMonthlyUnits cfg a s of
        Inl e \<Rightarrow> Inl e
      | Inr u \<Rightarrow> (case unitsOfAll cfg rest s of
                    Inl e \<Rightarrow> Inl e
                  | Inr us \<Rightarrow> Inr (u # us)))"

text \<open>
  Modelled from the spec: \<open>getFullCalculation\<close> (BillCalculator, section 4.4) is missing
  from the sources. An invalid tariff is a ConfigurationError. Then, in the order of
  the specification: the units of each appliance and their total; the solar units
  (0 when not installed); the net units, clamped at 0; the subsidy split of the net
  units; the progressive bill of the billable units; the cost and percentage of each
  appliance in proportion to its units (0 when the total is 0); the breakdown sorted
  by descending units with a stable sort, its head and its first three; the letter
  grade of the total; the total units in each of the three seasons, and the current
  season's units less the average of the other two.
\<close>

definition getFullCalculation ::
  "EngineConfig \<Rightarrow> Appliance list \<Rightarrow> StateTariff \<Rightarrow> SolarConfig \<Rightarrow> SubsidyConfig \<Rightarrow> Season \<Rightarrow>
   EngineError + CalculationResult" where
  "getFullCalculation cfg apps tariff solarConfig subsidyCfg currentSeason =
     (if \<not> validTariff tariff then Inl ConfigurationError
      else case unitsOfAll cfg apps currentSeason of Inl e \<Rightarrow> Inl e | Inr us \<Rightarrow>
           case unitsOfAll cfg apps Summer of Inl e \<Rightarrow> Inl e | Inr summerUs \<Rightarrow>
           case unitsOfAll cfg apps Winter of Inl e \<Rightarrow> Inl e | Inr winterUs \<Rightarrow>
           case unitsOfAll cfg apps Monsoon of Inl e \<Rightarrow> Inl e | Inr monsoonUs \<Rightarrow>
        (let total_u = sum_list us;
             solar = (if isInstalled solarConfig
                      then ratingKw solarConfig * solarUnitsPerKw cfg else 0);
             net = max 0 (total_u - solar);
             sub = applySubsidy net subsidyCfg;
             bill = calculateProgressiveBill (SubsidyResult.billableUnits sub) tariff;
             breakdown = map (\<lambda>(a, u).
                 \<lparr> appliance = a, units = u,
                   cost = (if total_u = 0 then 0
                           else u / total_u * BillBreakdown.energyCost bill),
                   percentage = (if total_u = 0 then 0 else u / total_u * 100) \<rparr>)
               (zip apps us);
             ranked = sort_key (\<lambda>b. - units b) breakdown;
             projections = (\<lambda>s. case s of Summer \<Rightarrow> sum_list summerUs
                                          | Winter \<Rightarrow> sum_list winterUs
                                          | Monsoon \<Rightarrow> sum_list monsoonUs);
             others = (case currentSeason of
                         Summer \<Rightarrow> (sum_list winterUs + sum_list monsoonUs) / 2
                       | Winter \<Rightarrow> (sum_list summerUs + sum_list monsoonUs) / 2
                       | Monsoon \<Rightarrow> (sum_list summerUs + sum_list winterUs) / 2)
         in Inr \<lparr> totalUnits = total_u,
                  solarGeneratedUnits = solar,
                  netUnits = net,
                  subsidizedUnits = SubsidyResult.subsidizedUnits sub,
                  billableUnits = SubsidyResult.billableUnits sub,
                  totalCost = total bill,
                  energyCost = BillBreakdown.energyCost bill,
                  fixedCharge = BillBreakdown.fixedCharge bill,
                  applianceBreakdown = breakdown,
                  highestConsumer = (case ranked of [] \<Rightarrow> None | b # _ \<Rightarrow> Some b),
                  topConsumers = take 3 ranked,
                  efficiencyScore = gradeOf cfg total_u,
                  subsidyConfig = subsidyCfg,
                  season = currentSeason,
                  remainingSubsidyUnits = SubsidyResult.remainingSubsidyUnits sub,
                  seasonalImpact = total_u - others,
                  seasonalProjections = projections \<rparr>))"

section \<open>Sample inputs\<close>

text \<open>Concrete inputs at which the results below are instantiated.\<close>

definition sampleLog :: "string \<Rightarrow> real \<Rightarrow> UserDailyUsage" where
  "sampleLog d u =
     \<lparr> userId = ''u1'', UserDailyUsage.date = d, UserDailyUsage.totalUnits = u,
       UserDailyUsage.totalCost = 0, isEstimated = False, appliances = [],
       UserDailyUsage.id' = d, createdAt = 0, updatedAt = 0 \<rparr>"

text \<open>Three readings of a clock set to UTC: two in November 2026, one in December.\<close>

definition clockNov3 :: Clock where
  "clockNov3 = \<lparr> isoString = ''2026-11-03T10:00:00.000Z'', fullYear = 2026, monthIndex = 10,
                 nowMs = 1793700000000, midnightMs = 1793664000000 \<rparr>"

definition clockNov20 :: Clock where
  "clockNov20 = \<lparr> isoString = ''2026-11-20T18:00:00.000Z'', fullYear = 2026, monthIndex = 10,
                  nowMs = 1795197600000, midnightMs = 1795132800000 \<rparr>"

definition clockDec5 :: Clock where
  "clockDec5 = \<lparr> isoString = ''2026-12-05T09:00:00.000Z'', fullYear = 2026, monthIndex = 11,
                 nowMs = 1796461200000, midnightMs = 1796428800000 \<rparr>"

definition sampleParse :: "string \<Rightarrow> int option" where
  "sampleParse = map_of [(''2026-11-01'', 1793491200000), (''2026-11-02'', 1793577600000)]"

text \<open>The initial subsidy configuration of the App state.\<close>

definition defaultSubsidy :: SubsidyConfig where
  "defaultSubsidy = \<lparr> type = NoSubsidy, limitUnits = 0 \<rparr>"

text \<open>Stand-ins for the two functions of utils/calculator that the summary calls.\<close>

definition sampleUnits :: "Appliance \<Rightarrow> Season \<Rightarrow> real" where
  "sampleUnits a s = watts a * hoursPerDay a * daysPerMonth a * quantity a / 1000"

definition sampleBill :: "real \<Rightarrow> StateTariff \<Rightarrow> BillBreakdown" where
  "sampleBill u tariff =
     \<lparr> BillBreakdown.energyCost = 5 * u,
       BillBreakdown.fixedCharge = StateTariff.fixedCharge tariff,
       total = 5 * u + StateTariff.fixedCharge tariff, slabBreakdown = [5 * u] \<rparr>"

definition sampleTariff :: StateTariff where
  "sampleTariff =
     \<lparr> StateTariff.id' = ''xx'', StateTariff.name = ''Sample'', StateTariff.fixedCharge = 50,
       slabs = [\<lparr> slab_min = 0, slab_max = Some 100, rate = 3 \<rparr>,
                \<lparr> slab_min = 100, slab_max = Some 300, rate = 5 \<rparr>,
                \<lparr> slab_min = 300, slab_max = None, rate = 7 \<rparr>] \<rparr>"

text \<open>Ten logs of 8 units each on the first ten days of November 2026, and an eleventh.\<close>

definition tenLogs :: "UserDailyUsage list" where
  "tenLogs = map (\<lambda>d. sampleLog d 8)
     [''2026-11-01'', ''2026-11-02'', ''2026-11-03'', ''2026-11-04'', ''2026-11-05'',
      ''2026-11-06'', ''2026-11-07'', ''2026-11-08'', ''2026-11-09'', ''2026-11-10'']"

definition elevenLogs :: "UserDailyUsage list" where
  "elevenLogs = tenLogs @ [sampleLog ''2026-11-11'' 8]"

text \<open>
  An appliance in standard mode: 1000 W, 5 hours a day, 30 days a month, quantity 1;
  and values for the configuration constants of the engine, the summer multiplier
  1.2 being that of the specification's example.
\<close>

definition sampleAppliance :: "ApplianceCategory \<Rightarrow> Appliance" where
  "sampleAppliance cat =
     \<lparr> Appliance.id' = ''a1'', Appliance.name = ''Sample'', category = cat, watts = 1000,
       hoursPerDay = 5, daysPerMonth = 30, quantity = 1, inputMode = Standard,
       acType = None, annualUnits = None, capacityTon = None, iseer = None, eer = None,
       starRating = None, icon = ''*'' \<rparr>"

definition sampleConfig :: EngineConfig where
  "sampleConfig =
     \<lparr> seasonalMultiplier = (\<lambda>s. case s of Summer \<Rightarrow> 1.2 | Winter \<Rightarrow> 0.9 | Monsoon \<Rightarrow> 1),
       derivedKw = (\<lambda>ton ratio. ton * 3.517 / ratio),
       solarUnitsPerKw = 120,
       gradeOf = (\<lambda>u. if u < 150 then GradeA else if u < 300 then GradeB
                       else if u < 450 then GradeC else if u < 600 then GradeD else GradeE) \<rparr>"

text \<open>
  A heap with three arrays of logs and two subsidy configurations, and props that
  point into it.
\<close>

definition sampleHeap :: Heap where
  "sampleHeap =
     \<lparr> logsAt = (\<lambda>a. if a = 10 then [sampleLog ''2026-11-01'' 5]
                      else if a = 20 then [sampleLog ''2026-11-02'' 40, sampleLog ''2026-11-01'' 50]
                      else if a = 30 then [sampleLog ''2026-11-01'' (2 ^ 1023),
                                          sampleLog ''2026-11-02'' (2 ^ 1023)]
                      else []),
       tariffAt = (\<lambda>a. sampleTariff),
       inventoryAt = (\<lambda>a. []),
       subsidyAt = (\<lambda>a. if a = 40 then \<lparr> type = Government, limitUnits = 100 \<rparr>
                         else defaultSubsidy) \<rparr>"

definition sampleProps :: "nat \<Rightarrow> nat \<Rightarrow> Props" where
  "sampleProps logsAddress subsidyAddress =
     \<lparr> logsRef = logsAddress, stateTariffRef = 0, inventoryRef = 0,
       subsidyConfigRef = subsidyAddress, seasonProp = Summer \<rparr>"

text \<open>A clock reading earlier in the same month: 1 November 2026, 06:00 UTC.\<close>

definition clockNov1 :: Clock where
  "clockNov1 = \<lparr> isoString = ''2026-11-01T06:00:00.000Z'', fullYear = 2026, monthIndex = 10,
                 nowMs = 1793512800000, midnightMs = 1793491200000 \<rparr>"

section \<open>Saving a log keeps one log per date\<close>

lemma map_replace_dates:
  "map UserDailyUsage.date
     (map (\<lambda>l. if UserDailyUsage.date l = UserDailyUsage.date newLog then newLog else l) prev)
   = map UserDailyUsage.date prev"
  by (induction prev) auto

lemma map_replace_distinct:
  assumes "distinct (map UserDailyUsage.date prev)"
    and "i < length prev"
    and "UserDailyUsage.date (prev ! i) = UserDailyUsage.date newLog"
  shows "map (\<lambda>l. if UserDailyUsage.date l = UserDailyUsage.date newLog then newLog else l) prev
         = prev[i := newLog]"
proof (rule nth_equalityI)
  show "length (map (\<lambda>l. if UserDailyUsage.date l = UserDailyUsage.date newLog then newLog else l) prev)
        = length (prev[i := newLog])"
    by simp
next
  fix j
  assume "j < length (map (\<lambda>l. if UserDailyUsage.date l = UserDailyUsage.date newLog then newLog else l) prev)"
  then have j: "j < length prev" by simp
  show "map (\<lambda>l. if UserDailyUsage.date l = UserDailyUsage.date newLog then newLog else l) prev ! j
        = prev[i := newLog] ! j"
  proof (cases "j = i")
    case True
    with assms j show ?thesis by simp
  next
    case False
    have "UserDailyUsage.date (prev ! j) \<noteq> UserDailyUsage.date (prev ! i)"
    proof
      assume "UserDailyUsage.date (prev ! j) = UserDailyUsage.date (prev ! i)"
      then have "map UserDailyUsage.date prev ! j = map UserDailyUsage.date prev ! i"
        using j assms(2) by simp
      moreover have "j < length (map UserDailyUsage.date prev)"
        "i < length (map UserDailyUsage.date prev)"
        using j assms(2) by simp_all
      ultimately have "j = i"
        using assms(1) nth_eq_iff_index_eq by blast
      with False show False by simp
    qed
    with assms(3) False j show ?thesis by simp
  qed
qed

text \<open>
  Claim C9. Starting from a list of logs with pairwise distinct dates, saving a log
  keeps the dates pairwise distinct. When a log of that date is present, the list
  after the save is the list before with exactly that entry overwritten in place
  (same length, every other position unchanged); when none is present, the new log
  is appended at the end.
\<close>

theorem handleSaveLog_one_log_per_date:
  assumes "distinct (map UserDailyUsage.date prev)"
  shows "distinct (map UserDailyUsage.date (handleSaveLog prev newLog))
       \<and> (UserDailyUsage.date newLog \<in> set (map UserDailyUsage.date prev) \<longrightarrow>
            (\<exists>i < length prev. UserDailyUsage.date (prev ! i) = UserDailyUsage.date newLog
               \<and> handleSaveLog prev newLog = prev[i := newLog]))
       \<and> (UserDailyUsage.date newLog \<notin> set (map UserDailyUsage.date prev) \<longrightarrow>
            handleSaveLog prev newLog = prev @ [newLog])"
proof (cases "find (\<lambda>l. UserDailyUsage.date l = UserDailyUsage.date newLog) prev")
  case None
  then have notin: "UserDailyUsage.date newLog \<notin> set (map UserDailyUsage.date prev)"
    by (auto simp: find_None_iff)
  have eq: "handleSaveLog prev newLog = prev @ [newLog]"
    using None by (simp add: handleSaveLog_def)
  have "distinct (map UserDailyUsage.date (prev @ [newLog]))"
    using assms notin by simp
  with eq notin show ?thesis by simp
next
  case (Some e)
  then obtain i where i: "i < length prev"
      "UserDailyUsage.date (prev ! i) = UserDailyUsage.date newLog"
    by (auto simp: find_Some_iff)
  then have isin: "UserDailyUsage.date newLog \<in> set (map UserDailyUsage.date prev)"
    by (metis length_map nth_map nth_mem)
  have eq: "handleSaveLog prev newLog
            = map (\<lambda>l. if UserDailyUsage.date l = UserDailyUsage.date newLog then newLog else l) prev"
    using Some by (simp add: handleSaveLog_def)
  have d: "distinct (map UserDailyUsage.date (handleSaveLog prev newLog))"
    using assms by (simp only: eq map_replace_dates)
  have "handleSaveLog prev newLog = prev[i := newLog]"
    using eq map_replace_distinct [OF assms i] by simp
  with i d isin show ?thesis by blast
qed

text \<open>
  Claim C9 at a list of two logs: a log for 2 November replaces the second entry, a
  log for 3 November is appended.
\<close>

theorem handleSaveLog_one_log_per_date_witness:
  "distinct (map UserDailyUsage.date [sampleLog ''2026-11-01'' 5, sampleLog ''2026-11-02'' 7])
   \<and> handleSaveLog [sampleLog ''2026-11-01'' 5, sampleLog ''2026-11-02'' 7]
         (sampleLog ''2026-11-02'' 9)
       = [sampleLog ''2026-11-01'' 5, sampleLog ''2026-11-02'' 9]
   \<and> handleSaveLog [sampleLog ''2026-11-01'' 5, sampleLog ''2026-11-02'' 7]
         (sampleLog ''2026-11-03'' 4)
       = [sampleLog ''2026-11-01'' 5, sampleLog ''2026-11-02'' 7, sampleLog ''2026-11-03'' 4]
   \<and> distinct (map UserDailyUsage.date
         (handleSaveLog [sampleLog ''2026-11-01'' 5, sampleLog ''2026-11-02'' 7]
            (sampleLog ''2026-11-02'' 9)))"
proof -
  have d: "distinct (map UserDailyUsage.date [sampleLog ''2026-11-01'' 5, sampleLog ''2026-11-02'' 7])"
    by (simp add: sampleLog_def)
  have a: "handleSaveLog [sampleLog ''2026-11-01'' 5, sampleLog ''2026-11-02'' 7]
         (sampleLog ''2026-11-03'' 4)
       = [sampleLog ''2026-11-01'' 5, sampleLog ''2026-11-02'' 7, sampleLog ''2026-11-03'' 4]"
    using handleSaveLog_one_log_per_date [OF d, of "sampleLog ''2026-11-03'' 4"]
    by (simp add: sampleLog_def)
  have r: "handleSaveLog [sampleLog ''2026-11-01'' 5, sampleLog ''2026-11-02'' 7]
         (sampleLog ''2026-11-02'' 9)
       = [sampleLog ''2026-11-01'' 5, sampleLog ''2026-11-02'' 9]"
    by (simp add: handleSaveLog_def sampleLog_def)
  from d a r handleSaveLog_one_log_per_date [OF d, of "sampleLog ''2026-11-02'' 9"]
  show ?thesis by simp
qed

section \<open>The sample inputs evaluated\<close>

lemma daysInMonth_samples:
  "daysInMonth clockNov3 = 30" "daysInMonth clockNov20 = 30" "daysInMonth clockDec5 = 31"
  by (simp_all add: daysInMonth_def lastDayOfMonth_def isLeapYear_def
        clockNov3_def clockNov20_def clockDec5_def)

lemma currentMonth_samples:
  "currentMonth clockNov3 = ''2026-11''" "currentMonth clockNov20 = ''2026-11''"
  "currentMonth clockDec5 = ''2026-12''"
  by (simp_all add: currentMonth_def clockNov3_def clockNov20_def clockDec5_def)

lemma toString_digit: "n < 10 \<Longrightarrow> toString n = [digitChar n]"
  by (subst toString.simps) simp

lemma dateStr_samples:
  "dateStr clockNov3 1 = ''2026-11-01''" "dateStr clockNov3 2 = ''2026-11-02''"
  "dateStr clockDec5 1 = ''2026-12-01''"
  by (simp_all add: dateStr_def currentMonth_samples toString_digit digitChar_def padStart_def)

lemma monthLogs_one_nov:
  "monthLogs clockNov3 [sampleLog ''2026-11-01'' u] = [sampleLog ''2026-11-01'' u]"
  by (simp add: monthLogs_def currentMonth_samples startsWith_def sampleLog_def)

lemma monthLogs_two_nov:
  "monthLogs clockNov3 [sampleLog ''2026-11-02'' u, sampleLog ''2026-11-01'' v]
     = [sampleLog ''2026-11-01'' v, sampleLog ''2026-11-02'' u]"
  by (simp add: monthLogs_def currentMonth_samples startsWith_def sampleLog_def)

lemma monthLogs_one_dec:
  "monthLogs clockDec5 [sampleLog ''2026-11-01'' u] = []"
  by (simp add: monthLogs_def currentMonth_samples startsWith_def sampleLog_def)

section \<open>Sums over the month's logs and the inventory\<close>

lemma foldl_add_sum_list:
  "foldl (\<lambda>sum x. sum + f x) a xs = a + sum_list (map f xs)"
  for a :: real
  by (induction xs arbitrary: a) (simp_all add: add.assoc)

lemma sum_list_insort_key:
  "sum_list (map g (insort_key f x xs)) = g x + sum_list (map g xs)"
  for g :: "'a \<Rightarrow> real"
  by (induction xs) (simp_all add: add.left_commute)

lemma sum_list_sort_key:
  "sum_list (map g (sort_key f xs)) = sum_list (map g xs)"
  for g :: "'a \<Rightarrow> real"
  by (induction xs) (simp_all add: sum_list_insort_key)

lemma monthTotalUnits_monthLogs:
  "monthTotalUnits (monthLogs c logs) =
     sum_list (map UserDailyUsage.totalUnits
       (filter (\<lambda>l. startsWith (UserDailyUsage.date l) (currentMonth c)) logs))"
  by (simp add: monthTotalUnits_def monthLogs_def foldl_add_sum_list sum_list_sort_key)

lemma daysLogged_monthLogs:
  "daysLogged (monthLogs c logs) =
     length (filter (\<lambda>l. startsWith (UserDailyUsage.date l) (currentMonth c)) logs)"
  by (simp add: daysLogged_def monthLogs_def)

lemma sum_list_divide:
  "sum_list (map (\<lambda>a. f a / k) xs) = sum_list (map f xs) / k"
  for f :: "'a \<Rightarrow> real"
  by (induction xs) (simp_all add: add_divide_distrib)

lemma baselineDaily_sum:
  "baselineDaily calc inventory sn = sum_list (map (\<lambda>a. calc a sn) inventory) / 30"
  by (simp add: baselineDaily_def foldl_add_sum_list sum_list_divide)

lemma daysInMonth_bounds: "28 \<le> daysInMonth c \<and> daysInMonth c \<le> 31"
  by (simp add: daysInMonth_def lastDayOfMonth_def Let_def)

lemma confidenceScore_summary:
  "confidenceScore (summary c calc bill logs tariff inventory sc sn) =
     (if daysLogged (monthLogs c logs) < 10 then None
      else Some (min 99 (65 + real (daysLogged (monthLogs c logs)) / real (daysInMonth c) * 35)))"
  by (simp add: summary_def Let_def)

lemma slabCrossed_summary:
  "slabCrossed (summary c calc bill logs tariff inventory sc sn)
     = (monthTotalUnits (monthLogs c logs) > limitUnits sc)"
  by (simp add: summary_def Let_def)

lemma projectedUnits_summary:
  "projectedUnits (summary c calc bill logs tariff inventory sc sn)
     = avgUnitsPerDay calc (monthLogs c logs) inventory sn * real (daysInMonth c)"
  by (simp add: summary_def Let_def)

lemma daysLogged_tenLogs:
  "daysLogged (monthLogs clockNov3 tenLogs) = 10"
  "daysLogged (monthLogs clockNov3 elevenLogs) = 11"
  by (simp_all add: daysLogged_monthLogs currentMonth_samples startsWith_def
        elevenLogs_def tenLogs_def sampleLog_def)

lemma monthTotalUnits_tenLogs:
  "monthTotalUnits (monthLogs clockNov3 tenLogs) = 80"
  by (simp add: monthTotalUnits_monthLogs currentMonth_samples startsWith_def
        tenLogs_def sampleLog_def)

lemma score_mono:
  fixes n n' d :: nat
  assumes "n \<le> n'"
  shows "min 99 (65 + real n / real d * 35) \<le> min (99::real) (65 + real n' / real d * 35)"
proof -
  define x y where "x = real n / real d" and "y = real n' / real d"
  have "x \<le> y"
    unfolding x_def y_def using assms by (simp add: divide_right_mono)
  then have "min 99 (65 + x * 35) \<le> min (99::real) (65 + y * 35)"
    by (simp add: min_def)
  then show ?thesis by (simp only: x_def y_def)
qed

lemma score_strict_mono:
  fixes n n' d :: nat
  assumes "n < n'" "n' \<le> d" "d \<le> 31"
  shows "min 99 (65 + real n / real d * 35) < min (99::real) (65 + real n' / real d * 35)"
proof -
  define x y r where "x = real n / real d" and "y = real n' / real d" and "r = 1 / real d"
  have d: "0 < real d" using assms by simp
  have lt: "x < y"
    unfolding x_def y_def using assms d by (simp add: divide_strict_right_mono)
  have "real n + 1 \<le> real d" using assms by simp
  then have "real n \<le> real d - 1" by simp
  then have "real n / real d \<le> (real d - 1) / real d"
    using d by (simp only: divide_right_mono less_imp_le)
  also have "\<dots> = 1 - r" using d by (simp add: diff_divide_distrib r_def)
  finally have a: "x \<le> 1 - r" by (simp only: x_def)
  have "real d \<le> 31" using assms by simp
  then have "1 / 31 \<le> 1 / real d"
    using d by (intro divide_left_mono) simp_all
  then have "1 / 31 \<le> r" by (simp only: r_def)
  with a have "x \<le> 30 / 31" by simp
  then have "65 + x * 35 < 99" by simp
  with lt have "min 99 (65 + x * 35) < min (99::real) (65 + y * 35)"
    by (simp add: min_def)
  then show ?thesis by (simp only: x_def y_def)
qed

section \<open>Dates of the month and the log found for a date\<close>

lemma digitChar_inj: "a < 10 \<Longrightarrow> b < 10 \<Longrightarrow> digitChar a = digitChar b \<Longrightarrow> a = b"
proof -
  assume a: "a < 10" and b: "b < 10" and e: "digitChar a = digitChar b"
  have d: "distinct ''0123456789''" by simp
  have "a < length ''0123456789''" "b < length ''0123456789''" using a b by simp_all
  with d e show "a = b"
    unfolding digitChar_def using nth_eq_iff_index_eq by blast
qed

lemma toString_two: "10 \<le> n \<Longrightarrow> n < 100 \<Longrightarrow> toString n = [digitChar (n div 10), digitChar (n mod 10)]"
  by (subst toString.simps) (simp add: toString_digit)

lemma padded_day:
  "n < 100 \<Longrightarrow> padStart 2 CHR ''0'' (toString n) = [digitChar (n div 10), digitChar (n mod 10)]"
  by (cases "n < 10") (simp_all add: toString_digit toString_two padStart_def digitChar_def)

lemma dateStr_inj:
  assumes "i < 100" "j < 100" "dateStr c i = dateStr c j"
  shows "i = j"
proof -
  from assms have "[digitChar (i div 10), digitChar (i mod 10)]
      = [digitChar (j div 10), digitChar (j mod 10)]"
    by (simp add: dateStr_def padded_day)
  then have "digitChar (i div 10) = digitChar (j div 10)" "digitChar (i mod 10) = digitChar (j mod 10)"
    by simp_all
  moreover have "i div 10 < 10" "j div 10 < 10" "i mod 10 < 10" "j mod 10 < 10"
    using assms(1,2) by simp_all
  ultimately have "i div 10 = j div 10" "i mod 10 = j mod 10"
    using digitChar_inj by blast+
  then show ?thesis by (metis div_mult_mod_eq)
qed

lemma find_filter_head:
  "find P xs = (case filter P xs of [] \<Rightarrow> None | x # _ \<Rightarrow> Some x)"
  by (induction xs) simp_all

lemma find_sort_key:
  "find (\<lambda>l. f l = k) (sort_key f xs) = find (\<lambda>l. f l = k) xs"
  by (simp only: find_filter_head [of _ "sort_key f xs"] find_filter_head [of _ xs]
        sort_key_stable)

lemma find_filter_implied:
  "(\<And>x. P x \<Longrightarrow> Q x) \<Longrightarrow> find P (filter Q xs) = find P xs"
  by (induction xs) auto

lemma startsWith_dateStr: "startsWith (dateStr c j) (currentMonth c)"
  by (simp add: startsWith_def dateStr_def)

lemma find_monthLogs:
  "find (\<lambda>l. UserDailyUsage.date l = dateStr c j) (monthLogs c logs)
     = find (\<lambda>l. UserDailyUsage.date l = dateStr c j) logs"
  unfolding monthLogs_def find_sort_key
  by (rule find_filter_implied) (simp add: startsWith_dateStr)

section \<open>Rounding to a double\<close>

lemma pow2_powr: "pow2 k = 2 powr (real_of_int k)"
  by (simp add: pow2_def powr_real_of_int inverse_eq_divide)

lemma pow2_pos: "0 < pow2 k"
  by (simp add: pow2_def)

lemma pow2_add: "pow2 (a + b) = pow2 a * pow2 b"
  by (simp add: pow2_powr powr_add)

lemma pow2_diff: "pow2 (a - b) = pow2 a / pow2 b"
  by (simp add: pow2_powr powr_diff)

lemma pow2_mono: "a \<le> b \<Longrightarrow> pow2 a \<le> pow2 b"
  by (simp add: pow2_powr)

lemma pow2_nat: "pow2 (int n) = 2 ^ n"
  by (simp add: pow2_def)

lemma floor_log2_eq:
  assumes "pow2 e \<le> \<bar>x\<bar>" "\<bar>x\<bar> < pow2 (e + 1)"
  shows "\<lfloor>log 2 \<bar>x\<bar>\<rfloor> = e"
proof -
  have "0 < \<bar>x\<bar>" using assms(1) pow2_pos [of e] by linarith
  then show ?thesis
    using assms by (simp add: floor_log_eq_powr_iff pow2_powr)
qed

lemma floor_log2_bounds:
  assumes "x \<noteq> 0"
  shows "pow2 \<lfloor>log 2 \<bar>x\<bar>\<rfloor> \<le> \<bar>x\<bar>" "\<bar>x\<bar> < pow2 (\<lfloor>log 2 \<bar>x\<bar>\<rfloor> + 1)"
proof -
  have "0 < \<bar>x\<bar>" using assms by simp
  then have "(\<lfloor>log 2 \<bar>x\<bar>\<rfloor> = \<lfloor>log 2 \<bar>x\<bar>\<rfloor>) =
       (2 powr real_of_int \<lfloor>log 2 \<bar>x\<bar>\<rfloor> \<le> \<bar>x\<bar> \<and> \<bar>x\<bar> < 2 powr real_of_int (\<lfloor>log 2 \<bar>x\<bar>\<rfloor> + 1))"
    by (intro floor_log_eq_powr_iff) simp_all
  then show "pow2 \<lfloor>log 2 \<bar>x\<bar>\<rfloor> \<le> \<bar>x\<bar>" "\<bar>x\<bar> < pow2 (\<lfloor>log 2 \<bar>x\<bar>\<rfloor> + 1)"
    by (simp_all add: pow2_powr)
qed

lemma binade_eq:
  assumes "pow2 e \<le> \<bar>x\<bar>" "\<bar>x\<bar> < pow2 (e + 1)" "- 1022 \<le> e"
  shows "binade x = e"
  using floor_log2_eq [OF assms(1,2)] assms(3) by (simp add: binade_def)

lemma binade_upper: "x \<noteq> 0 \<Longrightarrow> \<bar>x\<bar> < pow2 (binade x + 1)"
proof -
  assume "x \<noteq> 0"
  then have "\<bar>x\<bar> < pow2 (\<lfloor>log 2 \<bar>x\<bar>\<rfloor> + 1)" by (rule floor_log2_bounds)
  also have "\<dots> \<le> pow2 (binade x + 1)"
    by (intro pow2_mono) (simp add: binade_def)
  finally show ?thesis .
qed

lemma binade_lower: "x \<noteq> 0 \<Longrightarrow> - 1022 < binade x \<Longrightarrow> pow2 (binade x) \<le> \<bar>x\<bar>"
proof -
  assume x: "x \<noteq> 0" and b: "- 1022 < binade x"
  then have "binade x = \<lfloor>log 2 \<bar>x\<bar>\<rfloor>" by (simp add: binade_def max_def split: if_splits)
  with floor_log2_bounds(1) [OF x] show ?thesis by simp
qed

lemma binade_mono:
  assumes "0 < x" "x \<le> y"
  shows "binade x \<le> binade y"
proof -
  have "log 2 \<bar>x\<bar> \<le> log 2 \<bar>y\<bar>" using assms by simp
  then have "\<lfloor>log 2 \<bar>x\<bar>\<rfloor> \<le> \<lfloor>log 2 \<bar>y\<bar>\<rfloor>" by (rule floor_mono)
  then show ?thesis by (simp add: binade_def)
qed

lemma roundHalfEven_int: "roundHalfEven (of_int n) = n"
  by (simp add: roundHalfEven_def)

lemma roundHalfEven_range: "\<lfloor>r\<rfloor> \<le> roundHalfEven r \<and> roundHalfEven r \<le> \<lfloor>r\<rfloor> + 1"
  by (simp add: roundHalfEven_def Let_def)

lemma roundHalfEven_mono:
  assumes "r \<le> s"
  shows "roundHalfEven r \<le> roundHalfEven s"
proof (cases "\<lfloor>r\<rfloor> = \<lfloor>s\<rfloor>")
  case True
  then have "r - of_int \<lfloor>r\<rfloor> \<le> s - of_int \<lfloor>s\<rfloor>" using assms by simp
  with True show ?thesis
    by (auto simp: roundHalfEven_def Let_def)
next
  case False
  then have "\<lfloor>r\<rfloor> < \<lfloor>s\<rfloor>" using floor_mono [OF assms] by simp
  then have "roundHalfEven r \<le> \<lfloor>s\<rfloor>"
    using roundHalfEven_range [of r] by linarith
  then show ?thesis using roundHalfEven_range [of s] by linarith
qed


lemma nearest64_eq:
  assumes "pow2 e \<le> \<bar>x\<bar>" "\<bar>x\<bar> < pow2 (e + 1)" "- 1022 \<le> e"
    and "roundHalfEven (x / pow2 (e - 52)) = n"
  shows "nearest64 x = of_int n * pow2 (e - 52)"
  using binade_eq [OF assms(1-3)] assms(4) by (simp add: nearest64_def)

lemma round64_eq:
  assumes "pow2 e \<le> \<bar>x\<bar>" "\<bar>x\<bar> < pow2 (e + 1)" "- 1022 \<le> e"
    and "roundHalfEven (x / pow2 (e - 52)) = n"
    and "\<bar>of_int n * pow2 (e - 52)\<bar> < 2 ^ 1024"
  shows "round64 x = Fin (of_int n * pow2 (e - 52))"
proof -
  have "x \<noteq> 0" using assms(1) pow2_pos [of e] by auto
  with assms(5) show ?thesis
    by (simp add: round64_def nearest64_eq [OF assms(1-4)])
qed

lemma round64_overflow:
  assumes "pow2 e \<le> \<bar>x\<bar>" "\<bar>x\<bar> < pow2 (e + 1)" "- 1022 \<le> e"
    and "roundHalfEven (x / pow2 (e - 52)) = n"
    and "2 ^ 1024 \<le> \<bar>of_int n * pow2 (e - 52)\<bar>" and "0 < x"
  shows "round64 x = PInf"
  using assms(5,6) by (simp add: round64_def nearest64_eq [OF assms(1-4)])

lemma nearest64_pos_mono:
  assumes "0 < x" "x \<le> y"
  shows "nearest64 x \<le> nearest64 y"
proof (cases "binade x = binade y")
  case True
  have "x / pow2 (binade y - 52) \<le> y / pow2 (binade y - 52)"
    using assms pow2_pos [of "binade y - 52"] by (simp add: divide_right_mono)
  then have "roundHalfEven (x / pow2 (binade y - 52)) \<le> roundHalfEven (y / pow2 (binade y - 52))"
    by (rule roundHalfEven_mono)
  then show ?thesis
    using pow2_pos [of "binade y - 52"] by (simp add: nearest64_def True)
next
  case False
  with binade_mono [OF assms] have lt: "binade x < binade y" by simp
  have x0: "x \<noteq> 0" and y0: "y \<noteq> 0" using assms by simp_all
  have qx: "0 < pow2 (binade x - 52)" and qy: "0 < pow2 (binade y - 52)"
    by (rule pow2_pos)+
  \<comment> \<open>the rounded x is at most the next power of two\<close>
  have "x < pow2 (binade x + 1)" using binade_upper [OF x0] assms by simp
  then have "x / pow2 (binade x - 52) \<le> pow2 (binade x + 1) / pow2 (binade x - 52)"
    using qx by (simp add: divide_right_mono)
  also have "pow2 (binade x + 1) / pow2 (binade x - 52) = pow2 53"
    using pow2_diff [of "binade x + 1" "binade x - 52"] by simp
  also have "pow2 53 = of_int (2 ^ 53)" by (simp add: pow2_def)
  finally have "roundHalfEven (x / pow2 (binade x - 52)) \<le> roundHalfEven (of_int (2 ^ 53))"
    by (rule roundHalfEven_mono)
  then have "roundHalfEven (x / pow2 (binade x - 52)) \<le> 2 ^ 53"
    by (simp only: roundHalfEven_int)
  then have "real_of_int (roundHalfEven (x / pow2 (binade x - 52))) \<le> pow2 53"
    by (simp add: pow2_def)
  then have "nearest64 x \<le> pow2 53 * pow2 (binade x - 52)"
    using qx by (simp add: nearest64_def mult_right_mono)
  also have "\<dots> = pow2 (binade x + 1)"
    using pow2_add [of 53 "binade x - 52"] by (simp add: add.commute)
  also have "\<dots> \<le> pow2 (binade y)" using lt by (intro pow2_mono) simp
  finally have up: "nearest64 x \<le> pow2 (binade y)" .
  \<comment> \<open>the rounded y is at least the power of two below it\<close>
  have "- 1022 < binade y" using lt by (simp add: binade_def)
  then have "pow2 (binade y) \<le> y" using binade_lower [OF y0] assms by simp
  then have "pow2 (binade y) / pow2 (binade y - 52) \<le> y / pow2 (binade y - 52)"
    using qy by (simp add: divide_right_mono)
  moreover have "pow2 (binade y) / pow2 (binade y - 52) = of_int (2 ^ 52)"
    using pow2_diff [of "binade y" "binade y - 52"] by (simp add: pow2_def)
  ultimately have "roundHalfEven (of_int (2 ^ 52)) \<le> roundHalfEven (y / pow2 (binade y - 52))"
    by (metis roundHalfEven_mono)
  then have "2 ^ 52 \<le> roundHalfEven (y / pow2 (binade y - 52))"
    by (simp only: roundHalfEven_int)
  then have "pow2 52 \<le> real_of_int (roundHalfEven (y / pow2 (binade y - 52)))"
    by (simp add: pow2_def)
  then have "pow2 52 * pow2 (binade y - 52) \<le> nearest64 y"
    using qy by (simp add: nearest64_def mult_right_mono)
  moreover have "pow2 52 * pow2 (binade y - 52) = pow2 (binade y)"
    using pow2_add [of 52 "binade y - 52"] by simp
  ultimately have "pow2 (binade y) \<le> nearest64 y" by simp
  with up show ?thesis by simp
qed

lemma round64_int:
  assumes "\<bar>m\<bar> < 2 ^ 53"
  shows "round64 (of_int m) = Fin (of_int m)"
proof (cases "m = 0")
  case True
  then show ?thesis by (simp add: round64_def)
next
  case False
  define x :: real where "x = of_int m"
  have x0: "x \<noteq> 0" using False by (simp add: x_def)
  have ax: "1 \<le> \<bar>x\<bar>" "\<bar>x\<bar> < 2 ^ 53"
    using False assms unfolding x_def
    by (simp_all flip: of_int_abs)
  have lo: "0 \<le> \<lfloor>log 2 \<bar>x\<bar>\<rfloor>" using ax(1) by simp
  have "log 2 \<bar>x\<bar> < 53"
    using ax by (simp add: log_less_iff)
  then have hi: "\<lfloor>log 2 \<bar>x\<bar>\<rfloor> \<le> 52" by linarith
  define k where "k = nat (52 - \<lfloor>log 2 \<bar>x\<bar>\<rfloor>)"
  have b: "binade x = \<lfloor>log 2 \<bar>x\<bar>\<rfloor>" using lo by (simp add: binade_def)
  have q: "pow2 (binade x - 52) = 1 / 2 ^ k"
    using hi by (cases "\<lfloor>log 2 \<bar>x\<bar>\<rfloor> = 52") (simp_all add: pow2_def b k_def)
  have "x / pow2 (binade x - 52) = of_int (m * 2 ^ k)"
    by (simp only: q) (simp add: x_def)
  then have "roundHalfEven (x / pow2 (binade x - 52)) = m * 2 ^ k"
    by (simp only: roundHalfEven_int)
  then have n: "nearest64 x = x"
    by (simp only: nearest64_def q) (simp add: x_def)
  have "\<bar>x\<bar> < 2 ^ 1024"
  proof -
    have "(2::real) ^ 53 \<le> 2 ^ 1024" by (intro power_increasing) simp_all
    with ax(2) show ?thesis by linarith
  qed
  with x0 n show ?thesis by (simp add: round64_def x_def)
qed


lemma nearest64_nonneg: "0 \<le> x \<Longrightarrow> 0 \<le> nearest64 x"
proof -
  assume "0 \<le> x"
  then have "0 \<le> x / pow2 (binade x - 52)"
    using pow2_pos [of "binade x - 52"] by simp
  then have "0 \<le> \<lfloor>x / pow2 (binade x - 52)\<rfloor>" by simp
  then have "0 \<le> roundHalfEven (x / pow2 (binade x - 52))"
    using roundHalfEven_range [of "x / pow2 (binade x - 52)"] by linarith
  then show ?thesis
    using pow2_pos [of "binade x - 52"] by (simp add: nearest64_def)
qed

lemma isDouble_nearest64:
  assumes "isDouble x" "x \<noteq> 0"
  shows "nearest64 x = x" "\<bar>x\<bar> < 2 ^ 1024"
  using assms by (auto simp: isDouble_def round64_def split: if_splits)

lemma times085_le:
  assumes "isDouble l" "0 < l"
  shows "\<exists>k. times085 (Fin l) = Fin k \<and> k \<le> l"
proof -
  have d: "0 < double085" "double085 \<le> 1" by (simp_all add: double085_def)
  have pos: "0 < double085 * l" using d assms(2) by simp
  have le: "double085 * l \<le> l" using d assms(2) by (simp add: mult_left_le_one_le)
  have n: "nearest64 l = l" and b: "\<bar>l\<bar> < 2 ^ 1024"
    using isDouble_nearest64 [OF assms(1)] assms(2) by simp_all
  have "nearest64 (double085 * l) \<le> nearest64 l"
    using pos le by (rule nearest64_pos_mono)
  then have up: "nearest64 (double085 * l) \<le> l" by (simp only: n)
  moreover have "0 \<le> nearest64 (double085 * l)"
    using pos by (intro nearest64_nonneg) simp
  ultimately have "\<bar>nearest64 (double085 * l)\<bar> < 2 ^ 1024" using b assms(2) by linarith
  moreover have "double085 * l \<noteq> 0" using pos by linarith
  ultimately have "round64 (double085 * l) = Fin (nearest64 (double085 * l))"
    by (simp only: round64_def if_False not_le [symmetric])
  with up show ?thesis by simp
qed

lemma isDouble_int: "\<bar>m\<bar> < 2 ^ 53 \<Longrightarrow> isDouble (of_int m)"
  by (simp add: isDouble_def round64_int)

lemma round64_085: "round64 0.85 = Fin double085"
proof -
  have "round64 0.85 = Fin (of_int 7656119366529843 * pow2 (- 1 - 52))"
    by (rule round64_eq) (simp_all add: pow2_def roundHalfEven_def)
  then show ?thesis by (simp add: pow2_def double085_def)
qed

lemma times085_100: "times085 (Fin 100) = Fin 85"
proof -
  have "round64 (double085 * 100) = Fin (of_int 5981343255101440 * pow2 (6 - 52))"
    by (rule round64_eq) (simp_all add: pow2_def roundHalfEven_def double085_def)
  then show ?thesis by (simp add: pow2_def)
qed

lemma round64_overflow_example: "addUnits (Fin (2 ^ 1023)) (2 ^ 1023) = PInf"
proof -
  have "round64 (2 ^ 1023 + 2 ^ 1023) = PInf"
    by (rule round64_overflow [where e = 1024 and n = "2 ^ 52"])
      (simp_all add: pow2_def roundHalfEven_def)
  then show ?thesis by simp
qed

text \<open>
  A sum of non-negative numbers that stays within a power of two below \<open>2 ^ 1024\<close>
  rounds to a finite double within that power.
\<close>

lemma nearest64_pow2:
  assumes "- 1022 \<le> k"
  shows "nearest64 (pow2 k) = pow2 k"
proof -
  have q: "pow2 k / pow2 (k - 52) = of_int (2 ^ 52)"
    using pow2_add [of "k - 52" 52] pow2_pos [of "k - 52"] by (simp add: pow2_def)
  have a: "\<bar>pow2 k\<bar> = pow2 k" using pow2_pos [of k] by simp
  have lt: "pow2 k < pow2 (k + 1)"
    using pow2_add [of k 1] pow2_pos [of k] by (simp add: pow2_def)
  have "nearest64 (pow2 k) = of_int (2 ^ 52) * pow2 (k - 52)"
    by (rule nearest64_eq [where e = k])
       (simp_all only: a q roundHalfEven_int assms lt order_refl)
  also have "\<dots> = pow2 k"
    using pow2_add [of "k - 52" 52] by (simp add: pow2_def)
  finally show ?thesis .
qed

lemma round64_bounded:
  assumes "0 \<le> x" and "x \<le> 2 ^ k" and "k < 1024"
  shows "\<exists>y. round64 x = Fin y \<and> 0 \<le> y \<and> y \<le> 2 ^ k"
proof (cases "x = 0")
  case True
  then show ?thesis by (simp add: round64_def)
next
  case False
  then have pos: "0 < x" using assms(1) by simp
  have xk: "x \<le> pow2 (int k)" using assms(2) by (simp only: pow2_nat)
  have "nearest64 (pow2 (int k)) = pow2 (int k)"
    by (rule nearest64_pow2) simp
  with nearest64_pos_mono [OF pos xk] have le: "nearest64 x \<le> 2 ^ k"
    by (simp only: pow2_nat)
  have nn: "0 \<le> nearest64 x" using assms(1) by (rule nearest64_nonneg)
  have "(2::real) ^ k < 2 ^ 1024"
    using assms(3) by (intro power_strict_increasing) simp_all
  with le nn have "\<not> 2 ^ 1024 \<le> \<bar>nearest64 x\<bar>" by linarith
  then have "round64 x = Fin (nearest64 x)"
    using False by (simp only: round64_def if_False)
  with le nn show ?thesis by blast
qed

text \<open>
  Sums of doubles are not sums of reals: the double nearest to 0.1 added eight times
  gives 0.7999999999999999, which is below the double nearest to 0.8.
\<close>

lemma addUnits_tenth:
  "addUnits (Fin 0) (3602879701896397 / 2 ^ 55) = Fin (3602879701896397 / 2 ^ 55)"
  "addUnits (Fin (3602879701896397 / 2 ^ 55)) (3602879701896397 / 2 ^ 55)
      = Fin (3602879701896397 / 2 ^ 54)"
  "addUnits (Fin (3602879701896397 / 2 ^ 54)) (3602879701896397 / 2 ^ 55)
      = Fin (1351079888211149 / 2 ^ 52)"
  "addUnits (Fin (1351079888211149 / 2 ^ 52)) (3602879701896397 / 2 ^ 55)
      = Fin (3602879701896397 / 2 ^ 53)"
  "addUnits (Fin (3602879701896397 / 2 ^ 53)) (3602879701896397 / 2 ^ 55) = Fin (1 / 2 ^ 1)"
  "addUnits (Fin (1 / 2 ^ 1)) (3602879701896397 / 2 ^ 55) = Fin (5404319552844595 / 2 ^ 53)"
  "addUnits (Fin (5404319552844595 / 2 ^ 53)) (3602879701896397 / 2 ^ 55)
      = Fin (3152519739159347 / 2 ^ 52)"
  "addUnits (Fin (3152519739159347 / 2 ^ 52)) (3602879701896397 / 2 ^ 55)
      = Fin (7205759403792793 / 2 ^ 53)"
proof -
  have "round64 (0 + 3602879701896397 / 2 ^ 55) = Fin (of_int 7205759403792794 * pow2 (- 4 - 52))"
    by (rule round64_eq) (simp_all add: pow2_def roundHalfEven_def)
  then show "addUnits (Fin 0) (3602879701896397 / 2 ^ 55) = Fin (3602879701896397 / 2 ^ 55)"
    by (simp add: pow2_def)
  have "round64 (3602879701896397 / 2 ^ 55 + 3602879701896397 / 2 ^ 55)
      = Fin (of_int 7205759403792794 * pow2 (- 3 - 52))"
    by (rule round64_eq) (simp_all add: pow2_def roundHalfEven_def)
  then show "addUnits (Fin (3602879701896397 / 2 ^ 55)) (3602879701896397 / 2 ^ 55)
      = Fin (3602879701896397 / 2 ^ 54)"
    by (simp add: pow2_def)
  have "round64 (3602879701896397 / 2 ^ 54 + 3602879701896397 / 2 ^ 55)
      = Fin (of_int 5404319552844596 * pow2 (- 2 - 52))"
    by (rule round64_eq) (simp_all add: pow2_def roundHalfEven_def)
  then show "addUnits (Fin (3602879701896397 / 2 ^ 54)) (3602879701896397 / 2 ^ 55)
      = Fin (1351079888211149 / 2 ^ 52)"
    by (simp add: pow2_def)
  have "round64 (1351079888211149 / 2 ^ 52 + 3602879701896397 / 2 ^ 55)
      = Fin (of_int 7205759403792794 * pow2 (- 2 - 52))"
    by (rule round64_eq) (simp_all add: pow2_def roundHalfEven_def)
  then show "addUnits (Fin (1351079888211149 / 2 ^ 52)) (3602879701896397 / 2 ^ 55)
      = Fin (3602879701896397 / 2 ^ 53)"
    by (simp add: pow2_def)
  have "round64 (3602879701896397 / 2 ^ 53 + 3602879701896397 / 2 ^ 55)
      = Fin (of_int 4503599627370496 * pow2 (- 1 - 52))"
    by (rule round64_eq) (simp_all add: pow2_def roundHalfEven_def)
  then show "addUnits (Fin (3602879701896397 / 2 ^ 53)) (3602879701896397 / 2 ^ 55)
      = Fin (1 / 2 ^ 1)"
    by (simp add: pow2_def)
  have "round64 (1 / 2 ^ 1 + 3602879701896397 / 2 ^ 55)
      = Fin (of_int 5404319552844595 * pow2 (- 1 - 52))"
    by (rule round64_eq) (simp_all add: pow2_def roundHalfEven_def)
  then show "addUnits (Fin (1 / 2 ^ 1)) (3602879701896397 / 2 ^ 55)
      = Fin (5404319552844595 / 2 ^ 53)"
    by (simp add: pow2_def)
  have "round64 (5404319552844595 / 2 ^ 53 + 3602879701896397 / 2 ^ 55)
      = Fin (of_int 6305039478318694 * pow2 (- 1 - 52))"
    by (rule round64_eq) (simp_all add: pow2_def roundHalfEven_def)
  then show "addUnits (Fin (5404319552844595 / 2 ^ 53)) (3602879701896397 / 2 ^ 55)
      = Fin (3152519739159347 / 2 ^ 52)"
    by (simp add: pow2_def)
  have "round64 (3152519739159347 / 2 ^ 52 + 3602879701896397 / 2 ^ 55)
      = Fin (of_int 7205759403792793 * pow2 (- 1 - 52))"
    by (rule round64_eq) (simp_all add: pow2_def roundHalfEven_def)
  then show "addUnits (Fin (3152519739159347 / 2 ^ 52)) (3602879701896397 / 2 ^ 55)
      = Fin (7205759403792793 / 2 ^ 53)"
    by (simp add: pow2_def)
qed

lemma round64_tenth: "round64 (1 / 10) = Fin (3602879701896397 / 2 ^ 55)"
proof -
  have "round64 (1 / 10) = Fin (of_int 7205759403792794 * pow2 (- 4 - 52))"
    by (rule round64_eq) (simp_all add: pow2_def roundHalfEven_def)
  then show ?thesis by (simp add: pow2_def)
qed

lemma round64_eight_tenths: "round64 (8 / 10) = Fin (3602879701896397 / 2 ^ 52)"
proof -
  have "round64 (8 / 10) = Fin (of_int 7205759403792794 * pow2 (- 1 - 52))"
    by (rule round64_eq) (simp_all add: pow2_def roundHalfEven_def)
  then show ?thesis by (simp add: pow2_def)
qed

lemma eight_tenths_below:
  "foldl addUnits (Fin 0) (replicate 8 (3602879701896397 / 2 ^ 55))
     = Fin (7205759403792793 / 2 ^ 53)"
  "below (Fin (7205759403792793 / 2 ^ 53)) (Fin (3602879701896397 / 2 ^ 52))"
proof -
  have r: "replicate 8 x = [x, x, x, x, x, x, x, x]" for x :: real
    by (simp add: eval_nat_numeral)
  show "foldl addUnits (Fin 0) (replicate 8 (3602879701896397 / 2 ^ 55))
          = Fin (7205759403792793 / 2 ^ 53)"
    by (simp only: r foldl.simps addUnits_tenth)
  show "below (Fin (7205759403792793 / 2 ^ 53)) (Fin (3602879701896397 / 2 ^ 52))"
    by (simp add: below_def)
qed

section \<open>The calendar loop in closed form\<close>

lemma fst_dayCell:
  "fst (dayCell c p mLogs limit i cum) = addDay c mLogs cum i"
  by (simp add: dayCell_def addDay_def Let_def)

lemma calendarLoop_closed:
  "calendarLoop c p mLogs limit i cum days =
     days @ map (\<lambda>j. snd (dayCell c p mLogs limit j (foldl (addDay c mLogs) cum [i..<j])))
                [i..<Suc (daysInMonth c)]"
proof (induction c p mLogs limit i cum days rule: calendarLoop.induct)
  case (1 c p mLogs limit i cum days)
  show ?case
  proof (cases "i \<le> daysInMonth c")
    case False
    then show ?thesis
      by (subst calendarLoop.simps) simp
  next
    case True
    have step: "calendarLoop c p mLogs limit i cum days =
          calendarLoop c p mLogs limit (i + 1) (addDay c mLogs cum i)
            (days @ [snd (dayCell c p mLogs limit i cum)])"
      using True by (subst calendarLoop.simps) (simp add: fst_dayCell)
    have rest: "map (\<lambda>j. snd (dayCell c p mLogs limit j
                    (foldl (addDay c mLogs) (addDay c mLogs cum i) [i + 1..<j])))
                  [i + 1..<Suc (daysInMonth c)]
              = map (\<lambda>j. snd (dayCell c p mLogs limit j (foldl (addDay c mLogs) cum [i..<j])))
                  [i + 1..<Suc (daysInMonth c)]"
      by (rule map_cong) (auto simp: upt_conv_Cons)
    have "calendarLoop c p mLogs limit (i + 1) (addDay c mLogs cum i)
            (days @ [snd (dayCell c p mLogs limit i cum)])
          = (days @ [snd (dayCell c p mLogs limit i cum)]) @
            map (\<lambda>j. snd (dayCell c p mLogs limit j
                    (foldl (addDay c mLogs) (addDay c mLogs cum i) [i + 1..<j])))
                  [i + 1..<Suc (daysInMonth c)]"
      using "1.IH" [OF True] by (simp add: fst_dayCell)
    also have "\<dots> = days @ map (\<lambda>j. snd (dayCell c p mLogs limit j
                    (foldl (addDay c mLogs) cum [i..<j])))
                  (i # [i + 1..<Suc (daysInMonth c)])"
      by (simp only: rest) simp
    also have "i # [i + 1..<Suc (daysInMonth c)] = [i..<Suc (daysInMonth c)]"
      using True by (simp add: upt_conv_Cons)
    finally show ?thesis using step by simp
  qed
qed

lemma computeCalendarDays_closed:
  "computeCalendarDays c p mLogs sc =
     map (\<lambda>j. snd (dayCell c p mLogs (limitOf sc) j (foldl (addDay c mLogs) (Fin 0) [1..<j])))
         [1..<Suc (daysInMonth c)]"
  by (simp add: computeCalendarDays_def calendarLoop_closed)

text \<open>The part of a cell that does not depend on the instant of the computation.\<close>

lemma dayCell_fields:
  "CalendarDay.date (snd (dayCell c p mLogs limit i cum)) = dateStr c i"
  "dayNum (snd (dayCell c p mLogs limit i cum)) = i"
  "dayLog (snd (dayCell c p mLogs limit i cum))
     = find (\<lambda>l. UserDailyUsage.date l = dateStr c i) mLogs"
  "status (snd (dayCell c p mLogs limit i cum)) =
     (case find (\<lambda>l. UserDailyUsage.date l = dateStr c i) mLogs of
        None \<Rightarrow> NoStatus
      | Some _ \<Rightarrow>
          if geq (addDay c mLogs cum i) limit then Critical
          else if geq (addDay c mLogs cum i) (times085 limit) then Warning
          else Safe)"
  by (simp_all add: dayCell_def addDay_def Let_def split: option.split)

lemma runningTotal_step:
  "1 \<le> i \<Longrightarrow> addDay c mLogs (foldl (addDay c mLogs) (Fin 0) [1..<i]) i = runningTotal c mLogs i"
  by (simp add: runningTotal_def)

section \<open>What the month's logs, the summary and the cells take from the clock\<close>

lemma monthLogs_clock_cong:
  assumes "currentMonth c1 = currentMonth c2"
  shows "monthLogs c1 logs = monthLogs c2 logs"
  unfolding monthLogs_def assms ..

lemma dateStr_clock_cong:
  assumes "currentMonth c1 = currentMonth c2"
  shows "dateStr c1 i = dateStr c2 i"
  unfolding dateStr_def assms ..

lemma addDay_clock_cong:
  assumes "currentMonth c1 = currentMonth c2"
  shows "addDay c1 mLogs = addDay c2 mLogs"
  unfolding addDay_def dateStr_clock_cong [OF assms] ..

lemma summaryOfMonth_clock_cong:
  assumes "currentMonth c1 = currentMonth c2" and "daysInMonth c1 = daysInMonth c2"
  shows "summaryOfMonth c1 calc bill mLogs tariff inventory sc sn
           = summaryOfMonth c2 calc bill mLogs tariff inventory sc sn"
  unfolding summaryOfMonth_def assms ..

lemma summary_summaryOfMonth:
  "summary c calc bill logs tariff inventory sc sn
     = summaryOfMonth c calc bill (monthLogs c logs) tariff inventory sc sn"
  by (simp add: summary_def summaryOfMonth_def Let_def)

lemma unclocked_dayCell:
  "unclocked (snd (dayCell c p mLogs limit i cum)) =
     (dateStr c i, i, find (\<lambda>l. UserDailyUsage.date l = dateStr c i) mLogs,
      case find (\<lambda>l. UserDailyUsage.date l = dateStr c i) mLogs of
        None \<Rightarrow> NoStatus
      | Some _ \<Rightarrow>
          if geq (addDay c mLogs cum i) limit then Critical
          else if geq (addDay c mLogs cum i) (times085 limit) then Warning
          else Safe)"
  by (simp add: unclocked_def dayCell_fields)

lemma computeCalendarDays_clock_cong:
  assumes "currentMonth c1 = currentMonth c2" and "daysInMonth c1 = daysInMonth c2"
  shows "map unclocked (computeCalendarDays c1 p mLogs sc)
           = map unclocked (computeCalendarDays c2 p mLogs sc)"
  by (simp add: computeCalendarDays_closed unclocked_dayCell dateStr_clock_cong [OF assms(1)]
        addDay_clock_cong [OF assms(1)] assms(2) del: upt_Suc)

section \<open>The memoized values in the states of the component\<close>

lemma useMemo_snd: "snd (useMemo d x cache) = Some (d, fst (useMemo d x cache))"
  by (simp add: useMemo_def split: option.split)

lemma useMemo_fst: "fst (useMemo d x cache) = x \<or> cache = Some (d, fst (useMemo d x cache))"
  by (auto simp: useMemo_def split: option.split)

lemma render_unfold:
  "render c calc bill p heap props h =
     (let r1 = useMemo (logsRef props, currentMonth c)
                 (renderCount h, monthLogs c (logsAt heap (logsRef props))) (monthLogsMemo h);
          r2 = useMemo (fst (fst r1), stateTariffRef props, inventoryRef props, daysInMonth c,
                        currentMonth c, subsidyConfigRef props, seasonProp props)
                 (summaryOfMonth c calc bill (snd (fst r1))
                    (tariffAt heap (stateTariffRef props)) (inventoryAt heap (inventoryRef props))
                    (subsidyAt heap (subsidyConfigRef props)) (seasonProp props))
                 (summaryMemo h);
          r3 = useMemo (currentMonth c, daysInMonth c, fst (fst r1), subsidyConfigRef props)
                 (computeCalendarDays c p (snd (fst r1)) (subsidyAt heap (subsidyConfigRef props)))
                 (calendarDaysMemo h)
      in (\<lparr> summaryShown = fst r2, calendarDays = fst r3 \<rparr>,
          \<lparr> renderCount = Suc (renderCount h), monthLogsMemo = snd r1, summaryMemo = snd r2,
            calendarDaysMemo = snd r3 \<rparr>))"
  by (simp add: render_def Let_def case_prod_beta)

text \<open>
  A render keeps the caches consistent, and what it shows, from the cache or computed
  afresh, is the summary of the props and, but for \<open>isFuture\<close> and \<open>isEstimated\<close>, the
  calendar of the props.
\<close>

lemma render_step:
  assumes inv: "consistent calc bill p heap h"
  shows "consistent calc bill p heap (snd (render c calc bill p heap props h))"
    and "summaryShown (fst (render c calc bill p heap props h))
           = summary c calc bill (logsAt heap (logsRef props))
               (tariffAt heap (stateTariffRef props)) (inventoryAt heap (inventoryRef props))
               (subsidyAt heap (subsidyConfigRef props)) (seasonProp props)"
    and "map unclocked (calendarDays (fst (render c calc bill p heap props h)))
           = map unclocked
               (computeCalendarDays c p (monthLogs c (logsAt heap (logsRef props)))
                  (subsidyAt heap (subsidyConfigRef props)))"
proof -
  define n where "n = renderCount h"
  define logs where "logs = logsAt heap (logsRef props)"
  define tariff where "tariff = tariffAt heap (stateTariffRef props)"
  define inventory where "inventory = inventoryAt heap (inventoryRef props)"
  define sc where "sc = subsidyAt heap (subsidyConfigRef props)"
  define d1 where "d1 = (logsRef props, currentMonth c)"
  define r1 where "r1 = useMemo d1 (n, monthLogs c logs) (monthLogsMemo h)"
  define m where "m = fst r1"
  define d2 where "d2 = (fst m, stateTariffRef props, inventoryRef props, daysInMonth c,
                        currentMonth c, subsidyConfigRef props, seasonProp props)"
  define x2 where "x2 = summaryOfMonth c calc bill (snd m) tariff inventory sc (seasonProp props)"
  define r2 where "r2 = useMemo d2 x2 (summaryMemo h)"
  define d3 where "d3 = (currentMonth c, daysInMonth c, fst m, subsidyConfigRef props)"
  define x3 where "x3 = computeCalendarDays c p (snd m) sc"
  define r3 where "r3 = useMemo d3 x3 (calendarDaysMemo h)"
  have r: "render c calc bill p heap props h =
      (\<lparr> summaryShown = fst r2, calendarDays = fst r3 \<rparr>,
       \<lparr> renderCount = Suc n, monthLogsMemo = snd r1, summaryMemo = snd r2,
         calendarDaysMemo = snd r3 \<rparr>)"
    by (simp add: render_unfold Let_def r1_def r2_def r3_def d1_def d2_def d3_def x2_def x3_def
          m_def n_def logs_def tariff_def inventory_def sc_def)
  \<comment> \<open>the three parts of the invariant before the render\<close>
  have I1: "k < n \<and> (\<forall>c'. currentMonth c' = cm \<longrightarrow> ml = monthLogs c' (logsAt heap a))"
    if "monthLogsMemo h = Some ((a, cm), (k, ml))" for a cm k ml
    using inv that unfolding consistent_def n_def by blast
  have I2: "k < n \<and> (\<forall>a cm' ml c'. monthLogsMemo h = Some ((a, cm'), (k, ml))
                    \<and> currentMonth c' = cm \<and> daysInMonth c' = dim \<longrightarrow>
                      s = summaryOfMonth c' calc bill ml (tariffAt heap ta) (inventoryAt heap ia)
                            (subsidyAt heap sa) se)"
    if "summaryMemo h = Some ((k, ta, ia, dim, cm, sa, se), s)" for k ta ia dim cm sa se s
    using inv that unfolding consistent_def n_def by blast
  have I3: "k < n \<and> (\<forall>a cm' ml c'. monthLogsMemo h = Some ((a, cm'), (k, ml))
                    \<and> currentMonth c' = cm \<and> daysInMonth c' = dim \<longrightarrow>
                      map unclocked days
                        = map unclocked (computeCalendarDays c' p ml (subsidyAt heap sa)))"
    if "calendarDaysMemo h = Some ((cm, dim, k, sa), days)" for cm dim k sa days
    using inv that unfolding consistent_def n_def by blast
  \<comment> \<open>the month's logs that the render holds\<close>
  have m_cases: "m = (n, monthLogs c logs) \<or> monthLogsMemo h = Some (d1, m)"
    unfolding m_def r1_def by (rule useMemo_fst)
  have m_old: "fst m < n \<and> snd m = monthLogs c logs" if "monthLogsMemo h = Some (d1, m)"
    using I1 [of "logsRef props" "currentMonth c" "fst m" "snd m"] that
    by (simp add: d1_def logs_def)
  have m_snd: "snd m = monthLogs c logs"
    using m_cases m_old by auto
  have m_fst: "fst m < Suc n"
    using m_cases m_old by auto
  have m_memo: "monthLogsMemo h = Some (d1, m)" if "fst m < n"
    using m_cases that by auto
  have "snd r1 = Some (d1, m)"
    unfolding r1_def m_def by (rule useMemo_snd)
  moreover have "m = (fst m, monthLogs c logs)"
    by (metis m_snd prod.collapse)
  ultimately have s1: "snd r1 = Some ((logsRef props, currentMonth c), (fst m, monthLogs c logs))"
    by (simp only: d1_def)
  \<comment> \<open>the summary that the render shows\<close>
  have x2: "x2 = summaryOfMonth c calc bill (monthLogs c logs) tariff inventory sc (seasonProp props)"
    by (simp add: x2_def m_snd)
  have f2_cases: "fst r2 = x2 \<or> summaryMemo h = Some (d2, fst r2)"
    unfolding r2_def by (rule useMemo_fst)
  have f2: "fst r2 = x2"
  proof (rule disjE [OF f2_cases])
    assume c2: "summaryMemo h = Some (d2, fst r2)"
    note i = I2 [OF c2 [unfolded d2_def]]
    then have "fst m < n" by simp
    then have "monthLogsMemo h = Some ((logsRef props, currentMonth c), (fst m, snd m))"
      using m_memo by (simp add: d1_def)
    with i have "fst r2 = summaryOfMonth c calc bill (snd m) (tariffAt heap (stateTariffRef props))
        (inventoryAt heap (inventoryRef props)) (subsidyAt heap (subsidyConfigRef props))
        (seasonProp props)"
      by blast
    then show "fst r2 = x2"
      by (simp add: x2_def tariff_def inventory_def sc_def)
  qed
  have s2: "snd r2 = Some (d2, x2)"
    unfolding r2_def using useMemo_snd [of d2 x2 "summaryMemo h"] f2 [unfolded r2_def]
    by simp
  \<comment> \<open>the calendar that the render shows\<close>
  have f3_cases: "fst r3 = x3 \<or> calendarDaysMemo h = Some (d3, fst r3)"
    unfolding r3_def by (rule useMemo_fst)
  have f3: "map unclocked (fst r3) = map unclocked x3"
  proof (rule disjE [OF f3_cases])
    assume c3: "calendarDaysMemo h = Some (d3, fst r3)"
    note i = I3 [OF c3 [unfolded d3_def]]
    then have "fst m < n" by simp
    then have "monthLogsMemo h = Some ((logsRef props, currentMonth c), (fst m, snd m))"
      using m_memo by (simp add: d1_def)
    with i have "map unclocked (fst r3)
        = map unclocked (computeCalendarDays c p (snd m) (subsidyAt heap (subsidyConfigRef props)))"
      by blast
    then show "map unclocked (fst r3) = map unclocked x3"
      by (simp add: x3_def sc_def)
  qed simp
  have s3: "snd r3 = Some (d3, fst r3)"
    unfolding r3_def by (rule useMemo_snd)
  show "summaryShown (fst (render c calc bill p heap props h))
           = summary c calc bill (logsAt heap (logsRef props))
               (tariffAt heap (stateTariffRef props)) (inventoryAt heap (inventoryRef props))
               (subsidyAt heap (subsidyConfigRef props)) (seasonProp props)"
    by (simp add: r f2 x2 summary_summaryOfMonth logs_def tariff_def inventory_def sc_def)
  show "map unclocked (calendarDays (fst (render c calc bill p heap props h)))
           = map unclocked
               (computeCalendarDays c p (monthLogs c (logsAt heap (logsRef props)))
                  (subsidyAt heap (subsidyConfigRef props)))"
    by (simp add: r f3 x3_def m_snd logs_def sc_def)
  show "consistent calc bill p heap (snd (render c calc bill p heap props h))"
    unfolding consistent_def
  proof (intro conjI allI impI)
    fix a cm k ml
    assume "monthLogsMemo (snd (render c calc bill p heap props h)) = Some ((a, cm), (k, ml))"
    then have e: "a = logsRef props" "cm = currentMonth c" "k = fst m" "ml = monthLogs c logs"
      by (simp_all add: r s1)
    show "k < renderCount (snd (render c calc bill p heap props h))"
      using m_fst by (simp add: r e)
    fix c'
    assume "currentMonth c' = cm"
    then show "ml = monthLogs c' (logsAt heap a)"
      using monthLogs_clock_cong [of c' c] by (simp add: e logs_def)
  next
    fix k ta ia dim cm sa se s
    assume "summaryMemo (snd (render c calc bill p heap props h))
              = Some ((k, ta, ia, dim, cm, sa, se), s)"
    then have e: "k = fst m" "ta = stateTariffRef props" "ia = inventoryRef props"
        "dim = daysInMonth c" "cm = currentMonth c" "sa = subsidyConfigRef props"
        "se = seasonProp props" "s = x2"
      by (simp_all add: r s2 d2_def)
    show "k < renderCount (snd (render c calc bill p heap props h))"
      using m_fst by (simp add: r e)
    fix a cm' ml c'
    assume "monthLogsMemo (snd (render c calc bill p heap props h)) = Some ((a, cm'), (k, ml))
              \<and> currentMonth c' = cm \<and> daysInMonth c' = dim"
    then have "ml = monthLogs c logs" "currentMonth c' = currentMonth c"
        "daysInMonth c' = daysInMonth c"
      by (simp_all add: r s1 e)
    then show "s = summaryOfMonth c' calc bill ml (tariffAt heap ta) (inventoryAt heap ia)
                     (subsidyAt heap sa) se"
      using summaryOfMonth_clock_cong [of c' c]
      by (simp add: e x2 tariff_def inventory_def sc_def)
  next
    fix cm dim k sa days
    assume "calendarDaysMemo (snd (render c calc bill p heap props h))
              = Some ((cm, dim, k, sa), days)"
    then have e: "cm = currentMonth c" "dim = daysInMonth c" "k = fst m"
        "sa = subsidyConfigRef props" "days = fst r3"
      by (simp_all add: r s3 d3_def)
    show "k < renderCount (snd (render c calc bill p heap props h))"
      using m_fst by (simp add: r e)
    fix a cm' ml c'
    assume "monthLogsMemo (snd (render c calc bill p heap props h)) = Some ((a, cm'), (k, ml))
              \<and> currentMonth c' = cm \<and> daysInMonth c' = dim"
    then have "ml = monthLogs c logs" "currentMonth c' = currentMonth c"
        "daysInMonth c' = daysInMonth c"
      by (simp_all add: r s1 e)
    then show "map unclocked days
                 = map unclocked (computeCalendarDays c' p ml (subsidyAt heap sa))"
      using computeCalendarDays_clock_cong [of c' c p "monthLogs c logs" sc]
      by (simp add: e f3 x3_def m_snd sc_def)
  qed
qed

lemma consistent_mountHooks: "consistent calc bill p heap mountHooks"
  by (simp add: consistent_def mountHooks_def)

lemma reachable_consistent:
  "reachable calc bill p heap h \<Longrightarrow> consistent calc bill p heap h"
  by (induction rule: reachable.induct) (simp_all add: consistent_mountHooks render_step(1))

section \<open>The cells of the calendar shown\<close>

lemma addDay_monthLogs: "addDay c (monthLogs c logs) = addDay c logs"
  by (intro ext) (simp add: addDay_def find_monthLogs)

lemma runningTotal_monthLogs: "runningTotal c (monthLogs c logs) i = runningTotal c logs i"
  by (simp add: runningTotal_def addDay_monthLogs)

lemma unclocked_computeCalendarDays:
  "map unclocked (computeCalendarDays c p (monthLogs c logs) sc) =
     map (\<lambda>j. (dateStr c j, j, find (\<lambda>l. UserDailyUsage.date l = dateStr c j) logs,
                case find (\<lambda>l. UserDailyUsage.date l = dateStr c j) logs of
                  None \<Rightarrow> NoStatus
                | Some _ \<Rightarrow>
                    if geq (runningTotal c logs j) (limitOf sc) then Critical
                    else if geq (runningTotal c logs j) (times085 (limitOf sc)) then Warning
                    else Safe))
         [1..<Suc (daysInMonth c)]"
proof -
  have "unclocked (snd (dayCell c p (monthLogs c logs) (limitOf sc) j
            (foldl (addDay c (monthLogs c logs)) (Fin 0) [1..<j])))
        = (dateStr c j, j, find (\<lambda>l. UserDailyUsage.date l = dateStr c j) logs,
                case find (\<lambda>l. UserDailyUsage.date l = dateStr c j) logs of
                  None \<Rightarrow> NoStatus
                | Some _ \<Rightarrow>
                    if geq (runningTotal c logs j) (limitOf sc) then Critical
                    else if geq (runningTotal c logs j) (times085 (limitOf sc)) then Warning
                    else Safe)"
    if "j \<in> set [1..<Suc (daysInMonth c)]" for j
  proof -
    from that have "1 \<le> j" by (simp del: upt_Suc)
    then have "addDay c logs (foldl (addDay c logs) (Fin 0) [1..<j]) j = runningTotal c logs j"
      by (rule runningTotal_step)
    then show ?thesis
      by (simp only: unclocked_dayCell find_monthLogs addDay_monthLogs)
  qed
  then show ?thesis
    unfolding computeCalendarDays_closed map_map comp_def by (intro map_cong refl)
qed

lemma rendered_cells:
  assumes "consistent calc bill p heap h"
  shows "map unclocked (calendarDays (fst (render c calc bill p heap props h))) =
     map (\<lambda>j. (dateStr c j, j,
                find (\<lambda>l. UserDailyUsage.date l = dateStr c j) (logsAt heap (logsRef props)),
                case find (\<lambda>l. UserDailyUsage.date l = dateStr c j)
                       (logsAt heap (logsRef props)) of
                  None \<Rightarrow> NoStatus
                | Some _ \<Rightarrow>
                    if geq (runningTotal c (logsAt heap (logsRef props)) j)
                         (limitOf (subsidyAt heap (subsidyConfigRef props))) then Critical
                    else if geq (runningTotal c (logsAt heap (logsRef props)) j)
                         (times085 (limitOf (subsidyAt heap (subsidyConfigRef props))))
                    then Warning
                    else Safe))
         [1..<Suc (daysInMonth c)]"
  by (simp only: render_step(3) [OF assms] unclocked_computeCalendarDays)

lemma rendered_length:
  assumes "consistent calc bill p heap h"
  shows "length (calendarDays (fst (render c calc bill p heap props h))) = daysInMonth c"
proof -
  have "length (map unclocked (calendarDays (fst (render c calc bill p heap props h))))
          = length [1..<Suc (daysInMonth c)]"
    by (simp only: rendered_cells [OF assms] length_map)
  then show ?thesis by (simp del: upt_Suc)
qed

lemma rendered_cell:
  assumes "consistent calc bill p heap h" and "1 \<le> i" and "i \<le> daysInMonth c"
  shows "unclocked (calendarDays (fst (render c calc bill p heap props h)) ! (i - 1)) =
     (dateStr c i, i,
      find (\<lambda>l. UserDailyUsage.date l = dateStr c i) (logsAt heap (logsRef props)),
      case find (\<lambda>l. UserDailyUsage.date l = dateStr c i) (logsAt heap (logsRef props)) of
        None \<Rightarrow> NoStatus
      | Some _ \<Rightarrow>
          if geq (runningTotal c (logsAt heap (logsRef props)) i)
               (limitOf (subsidyAt heap (subsidyConfigRef props))) then Critical
          else if geq (runningTotal c (logsAt heap (logsRef props)) i)
               (times085 (limitOf (subsidyAt heap (subsidyConfigRef props)))) then Warning
          else Safe)"
proof -
  have len: "i - 1 < length (calendarDays (fst (render c calc bill p heap props h)))"
    using assms(2,3) by (simp add: rendered_length [OF assms(1)])
  have idx: "i - 1 < length [1..<Suc (daysInMonth c)]" "[1..<Suc (daysInMonth c)] ! (i - 1) = i"
    using assms(2,3) by (simp_all add: nth_upt del: upt_Suc)
  have "unclocked (calendarDays (fst (render c calc bill p heap props h)) ! (i - 1))
          = map unclocked (calendarDays (fst (render c calc bill p heap props h))) ! (i - 1)"
    using len by simp
  also have "\<dots> = (\<lambda>j. (dateStr c j, j,
                find (\<lambda>l. UserDailyUsage.date l = dateStr c j) (logsAt heap (logsRef props)),
                case find (\<lambda>l. UserDailyUsage.date l = dateStr c j)
                       (logsAt heap (logsRef props)) of
                  None \<Rightarrow> NoStatus
                | Some _ \<Rightarrow>
                    if geq (runningTotal c (logsAt heap (logsRef props)) j)
                         (limitOf (subsidyAt heap (subsidyConfigRef props))) then Critical
                    else if geq (runningTotal c (logsAt heap (logsRef props)) j)
                         (times085 (limitOf (subsidyAt heap (subsidyConfigRef props))))
                    then Warning
                    else Safe)) ([1..<Suc (daysInMonth c)] ! (i - 1))"
    unfolding rendered_cells [OF assms(1)] using idx(1) by (rule nth_map)
  finally show ?thesis by (simp only: idx(2))
qed

section \<open>The running total of the loop and the cumulative logged units\<close>

lemma filter_key_distinct:
  assumes "distinct (map f xs)"
  shows "filter (\<lambda>l. f l = k) xs = (case find (\<lambda>l. f l = k) xs of None \<Rightarrow> [] | Some l \<Rightarrow> [l])"
  using assms
proof (induction xs)
  case Nil
  then show ?case by simp
next
  case (Cons x xs)
  show ?case
  proof (cases "f x = k")
    case True
    from Cons.prems have "f x \<notin> f ` set xs" by simp
    with True have "\<forall>l \<in> set xs. f l \<noteq> k" by blast
    then have "filter (\<lambda>l. f l = k) xs = []"
      by (simp add: filter_empty_conv)
    with True show ?thesis by simp
  next
    case False
    with Cons show ?thesis by simp
  qed
qed

lemma runningTotal_distinct:
  assumes "distinct (map UserDailyUsage.date logs)"
  shows "runningTotal c logs i = cumulativeLoggedUnits c logs i"
proof (induction i)
  case 0
  show ?case by (simp add: runningTotal_def cumulativeLoggedUnits_def logsUpTo_def)
next
  case (Suc i)
  have "foldl addUnits a (map UserDailyUsage.totalUnits
          (filter (\<lambda>l. UserDailyUsage.date l = dateStr c (Suc i)) logs))
        = addDay c logs a (Suc i)" for a
    by (simp add: filter_key_distinct [OF assms] addDay_def split: option.split)
  then have "cumulativeLoggedUnits c logs (Suc i)
               = addDay c logs (cumulativeLoggedUnits c logs i) (Suc i)"
    by (simp add: cumulativeLoggedUnits_def logsUpTo_def)
  moreover have "runningTotal c logs (Suc i) = addDay c logs (runningTotal c logs i) (Suc i)"
    by (simp add: runningTotal_def)
  ultimately show ?case by (simp only: Suc.IH)
qed

lemma geq_trans: "geq a b \<Longrightarrow> geq b c \<Longrightarrow> geq a c"
  by (cases a; cases b; cases c) simp_all

lemma geq_limit_times085:
  assumes "0 \<le> limitUnits sc" and "isDouble (limitUnits sc)"
  shows "geq (limitOf sc) (times085 (limitOf sc))"
proof (cases "limitUnits sc = 0")
  case True
  then show ?thesis by (simp add: limitOf_def)
next
  case False
  with assms(1) have "0 < limitUnits sc" by simp
  from times085_le [OF assms(2) this] obtain k where
    "times085 (Fin (limitUnits sc)) = Fin k" "k \<le> limitUnits sc" by blast
  with False show ?thesis by (simp add: limitOf_def)
qed

text \<open>
  With units between 0 and \<open>2 ^ 990\<close> in every log, the running total of a month, of
  at most 31 days, stays finite.
\<close>

lemma runningTotal_bounded:
  assumes "\<And>l. l \<in> set logs \<Longrightarrow>
              0 \<le> UserDailyUsage.totalUnits l \<and> UserDailyUsage.totalUnits l \<le> 2 ^ 990"
    and "i \<le> 31"
  shows "\<exists>y. runningTotal c logs i = Fin y \<and> 0 \<le> y \<and> y \<le> 2 ^ (990 + i)"
  using assms(2)
proof (induction i)
  case 0
  have "(0::real) \<le> 2 ^ (990 + 0)" by (rule zero_le_power) simp
  then show ?case by (simp only: runningTotal_def upt_rec [of 1 "Suc 0"] foldl.simps) simp
next
  case (Suc i)
  then obtain y where y: "runningTotal c logs i = Fin y" "0 \<le> y" "y \<le> 2 ^ (990 + i)"
    by auto
  have step: "runningTotal c logs (Suc i) = addDay c logs (Fin y) (Suc i)"
    unfolding y(1) [symmetric] by (simp add: runningTotal_def)
  have up: "(2::real) ^ (990 + i) + 2 ^ (990 + i) = 2 ^ (990 + Suc i)"
    by (simp only: add_Suc_right power_Suc mult_2)
  have nn: "(0::real) \<le> 2 ^ (990 + i)" by (rule zero_le_power) simp
  show ?case
  proof (cases "find (\<lambda>l. UserDailyUsage.date l = dateStr c (Suc i)) logs")
    case None
    then have "runningTotal c logs (Suc i) = Fin y"
      by (simp only: step addDay_def option.case)
    moreover have "y \<le> 2 ^ (990 + Suc i)" using y(3) nn up by linarith
    ultimately show ?thesis using y(2) by blast
  next
    case (Some l)
    then have "l \<in> set logs" by (auto simp: find_Some_iff)
    then have u: "0 \<le> UserDailyUsage.totalUnits l" "UserDailyUsage.totalUnits l \<le> 2 ^ 990"
      using assms(1) by auto
    have "(2::real) ^ 990 \<le> 2 ^ (990 + i)"
      by (rule power_increasing) simp_all
    with u y up have b: "0 \<le> y + UserDailyUsage.totalUnits l"
      "y + UserDailyUsage.totalUnits l \<le> 2 ^ (990 + Suc i)" by linarith+
    have k: "990 + Suc i < 1024" using Suc.prems by simp
    have "runningTotal c logs (Suc i) = round64 (y + UserDailyUsage.totalUnits l)"
      using Some by (simp only: step addDay_def option.case addUnits.simps)
    with round64_bounded [OF b k] show ?thesis by (simp only:)
  qed
qed

section \<open>The sample heap evaluated\<close>

lemma sampleHeap_logs:
  "logsAt sampleHeap (logsRef (sampleProps 10 s)) = [sampleLog ''2026-11-01'' 5]"
  "logsAt sampleHeap (logsRef (sampleProps 20 s))
     = [sampleLog ''2026-11-02'' 40, sampleLog ''2026-11-01'' 50]"
  "logsAt sampleHeap (logsRef (sampleProps 30 s))
     = [sampleLog ''2026-11-01'' (2 ^ 1023), sampleLog ''2026-11-02'' (2 ^ 1023)]"
  by (simp_all add: sampleHeap_def sampleProps_def)

lemma sampleHeap_subsidy:
  "subsidyAt sampleHeap (subsidyConfigRef (sampleProps a 0)) = defaultSubsidy"
  "subsidyAt sampleHeap (subsidyConfigRef (sampleProps a 40))
     = \<lparr> type = Government, limitUnits = 100 \<rparr>"
  by (simp_all add: sampleHeap_def sampleProps_def)

lemma sampleHeap_rest:
  "tariffAt sampleHeap (stateTariffRef (sampleProps a s)) = sampleTariff"
  "inventoryAt sampleHeap (inventoryRef (sampleProps a s)) = []"
  "seasonProp (sampleProps a s) = Summer"
  by (simp_all add: sampleHeap_def sampleProps_def)

lemma dateStr_nov20:
  "dateStr clockNov20 1 = ''2026-11-01''" "dateStr clockNov20 2 = ''2026-11-02''"
  by (simp_all add: dateStr_def currentMonth_samples toString_digit digitChar_def padStart_def)

lemma upt_1_2: "[1..<Suc 1] = [1]" "[1..<Suc 2] = [1, 2]"
  by (simp_all add: upt_conv_Cons)

lemma addUnits_samples:
  "addUnits (Fin 0) 5 = Fin 5" "addUnits (Fin 0) 50 = Fin 50" "addUnits (Fin 50) 40 = Fin 90"
  using round64_int [of 5] round64_int [of 50] round64_int [of 90] by simp_all

lemma isDouble_100: "isDouble 100"
  using isDouble_int [of 100] by simp

lemma addUnits_huge: "addUnits (Fin 0) (2 ^ 1023) = Fin (2 ^ 1023)"
proof -
  have "round64 (2 ^ 1023) = Fin (of_int (2 ^ 52) * pow2 (1023 - 52))"
    by (rule round64_eq) (simp_all add: pow2_def roundHalfEven_def)
  then show ?thesis by (simp add: pow2_def)
qed

lemma sampleLog_fields:
  "UserDailyUsage.date (sampleLog d u) = d" "UserDailyUsage.totalUnits (sampleLog d u) = u"
  by (simp_all add: sampleLog_def)

lemma dateStr_Suc0:
  "dateStr clockNov3 (Suc 0) = ''2026-11-01''" "dateStr clockNov20 (Suc 0) = ''2026-11-01''"
  "dateStr clockDec5 (Suc 0) = ''2026-12-01''"
  using dateStr_samples(1,3) dateStr_nov20(1) by simp_all

lemma round64_samples:
  "round64 5 = Fin 5" "round64 50 = Fin 50" "round64 90 = Fin 90"
  using round64_int [of 5] round64_int [of 50] round64_int [of 90] by simp_all

lemma unclocked_fields:
  assumes "unclocked d = (ds, n, l, st)"
  shows "CalendarDay.date d = ds" "dayNum d = n" "dayLog d = l" "status d = st"
  using assms by (simp_all add: unclocked_def)

section \<open>Status of a calendar day\<close>

text \<open>
  Claim C1. In every state the component can be in, for logs with pairwise distinct
  dates and a subsidy limit that is a non-negative double, the calendar shown has one
  cell for each day of the month, and the cell of day \<open>i\<close> holds the log dated that
  day, if any. A day without a log has no status. A day with a log is safe when the
  cumulative logged units up to and including day \<open>i\<close>, added in double precision in
  the order of the days, are below 0.85 times the limit, a warning when they are at
  least 0.85 times the limit and below the limit, and critical when they are at least
  the limit. Here the limit is infinite when \<open>limitUnits\<close> is 0, and 0.85 times the
  limit is the product rounded to a double.
\<close>

theorem calendarDays_status:
  assumes "reachable calc bill p heap h"
    and "distinct (map UserDailyUsage.date (logsAt heap (logsRef props)))"
    and "0 \<le> limitUnits (subsidyAt heap (subsidyConfigRef props))"
    and "isDouble (limitUnits (subsidyAt heap (subsidyConfigRef props)))"
    and "1 \<le> i" and "i \<le> daysInMonth c"
  shows "let logs = logsAt heap (logsRef props);
             limit = limitOf (subsidyAt heap (subsidyConfigRef props));
             cum = cumulativeLoggedUnits c logs i;
             days = calendarDays (fst (render c calc bill p heap props h));
             cell = days ! (i - 1)
         in length days = daysInMonth c
          \<and> dayNum cell = i
          \<and> CalendarDay.date cell = dateStr c i
          \<and> dayLog cell = find (\<lambda>l. UserDailyUsage.date l = dateStr c i) logs
          \<and> (dayLog cell = None \<longrightarrow> status cell = NoStatus)
          \<and> (dayLog cell \<noteq> None \<and> below cum (times085 limit) \<longrightarrow> status cell = Safe)
          \<and> (dayLog cell \<noteq> None \<and> geq cum (times085 limit) \<and> below cum limit
                \<longrightarrow> status cell = Warning)
          \<and> (dayLog cell \<noteq> None \<and> geq cum limit \<longrightarrow> status cell = Critical)"
proof -
  note inv = reachable_consistent [OF assms(1)]
  note cell = unclocked_fields [OF rendered_cell [OF inv assms(5,6), of props,
        unfolded runningTotal_distinct [OF assms(2)]]]
  have order: "geq x (times085 (limitOf (subsidyAt heap (subsidyConfigRef props))))"
    if "geq x (limitOf (subsidyAt heap (subsidyConfigRef props)))" for x
    using that geq_limit_times085 [OF assms(3,4)] by (rule geq_trans)
  show ?thesis
    unfolding Let_def below_def
    using rendered_length [OF inv, of c props] cell order
    by (auto split: option.splits)
qed

text \<open>
  Claim C1 instantiated: logs of 50 units for 1 November and 40 units for 2 November
  2026 and a limit of 100 units, in a component that has rendered once before. The
  cumulative units of 2 November are 90, at least 85 and below 100: the day is a
  warning.
\<close>

theorem calendarDays_status_witness:
  "reachable sampleUnits sampleBill sampleParse sampleHeap
     (snd (render clockNov3 sampleUnits sampleBill sampleParse sampleHeap (sampleProps 20 40)
             mountHooks))
   \<and> distinct (map UserDailyUsage.date (logsAt sampleHeap (logsRef (sampleProps 20 40))))
   \<and> 0 \<le> limitUnits (subsidyAt sampleHeap (subsidyConfigRef (sampleProps 20 40)))
   \<and> isDouble (limitUnits (subsidyAt sampleHeap (subsidyConfigRef (sampleProps 20 40))))
   \<and> (1::nat) \<le> 2 \<and> 2 \<le> daysInMonth clockNov20
   \<and> cumulativeLoggedUnits clockNov20 (logsAt sampleHeap (logsRef (sampleProps 20 40))) 2 = Fin 90
   \<and> times085 (limitOf (subsidyAt sampleHeap (subsidyConfigRef (sampleProps 20 40)))) = Fin 85
   \<and> dayLog (calendarDays (fst (render clockNov20 sampleUnits sampleBill sampleParse sampleHeap
        (sampleProps 20 40)
        (snd (render clockNov3 sampleUnits sampleBill sampleParse sampleHeap (sampleProps 20 40)
                mountHooks)))) ! 1) = Some (sampleLog ''2026-11-02'' 40)
   \<and> status (calendarDays (fst (render clockNov20 sampleUnits sampleBill sampleParse sampleHeap
        (sampleProps 20 40)
        (snd (render clockNov3 sampleUnits sampleBill sampleParse sampleHeap (sampleProps 20 40)
                mountHooks)))) ! 1) = Warning"
proof -
  have re: "reachable sampleUnits sampleBill sampleParse sampleHeap
     (snd (render clockNov3 sampleUnits sampleBill sampleParse sampleHeap (sampleProps 20 40)
             mountHooks))"
    by (intro reachable.rendered reachable.mounted)
  have di: "distinct (map UserDailyUsage.date (logsAt sampleHeap (logsRef (sampleProps 20 40))))"
    by (simp add: sampleHeap_logs sampleLog_fields)
  have li: "0 \<le> limitUnits (subsidyAt sampleHeap (subsidyConfigRef (sampleProps 20 40)))"
    "isDouble (limitUnits (subsidyAt sampleHeap (subsidyConfigRef (sampleProps 20 40))))"
    by (simp_all add: sampleHeap_subsidy isDouble_100)
  have ix: "(1::nat) \<le> 2" "2 \<le> daysInMonth clockNov20"
    by (simp_all add: daysInMonth_samples)
  have up: "logsUpTo clockNov20 [sampleLog ''2026-11-02'' 40, sampleLog ''2026-11-01'' 50] 2
              = [sampleLog ''2026-11-01'' 50, sampleLog ''2026-11-02'' 40]"
    unfolding logsUpTo_def upt_1_2 by (simp add: dateStr_nov20 dateStr_Suc0 sampleLog_fields)
  have cum': "cumulativeLoggedUnits clockNov20
                [sampleLog ''2026-11-02'' 40, sampleLog ''2026-11-01'' 50] 2 = Fin 90"
    unfolding cumulativeLoggedUnits_def up
    by (simp add: sampleLog_fields round64_samples)
  then have cum: "cumulativeLoggedUnits clockNov20
                    (logsAt sampleHeap (logsRef (sampleProps 20 40))) 2 = Fin 90"
    by (simp only: sampleHeap_logs)
  have lim: "limitOf (subsidyAt sampleHeap (subsidyConfigRef (sampleProps 20 40))) = Fin 100"
    by (simp add: sampleHeap_subsidy limitOf_def)
  have fnd: "find (\<lambda>l. UserDailyUsage.date l = ''2026-11-02'')
               [sampleLog ''2026-11-02'' 40, sampleLog ''2026-11-01'' 50]
             = Some (sampleLog ''2026-11-02'' 40)"
    by (simp add: sampleLog_fields)
  note t = calendarDays_status [OF re di li ix,
      unfolded Let_def lim times085_100 sampleHeap_logs cum' dateStr_nov20 fnd below_def]
  have "times085 (limitOf (subsidyAt sampleHeap (subsidyConfigRef (sampleProps 20 40)))) = Fin 85"
    by (simp only: lim times085_100)
  with re di li ix cum t show ?thesis
    by simp
qed

text \<open>
  Claim C1 with the limit read as \<open>limitUnits\<close> itself fails for \<open>limitUnits = 0\<close>, the
  initial configuration of the App: with one log of 5 units for 1 November 2026 the
  cumulative units 5 are at least the limit 0, and the day is safe, not critical.
\<close>

theorem calendarDays_status_counterexample:
  "dayLog (calendarDays (fst (render clockNov3 sampleUnits sampleBill sampleParse sampleHeap
        (sampleProps 10 0) mountHooks)) ! 0) = Some (sampleLog ''2026-11-01'' 5)
   \<and> cumulativeLoggedUnits clockNov3 (logsAt sampleHeap (logsRef (sampleProps 10 0))) 1 = Fin 5
   \<and> limitUnits (subsidyAt sampleHeap (subsidyConfigRef (sampleProps 10 0))) = 0
   \<and> geq (cumulativeLoggedUnits clockNov3 (logsAt sampleHeap (logsRef (sampleProps 10 0))) 1)
         (Fin (limitUnits (subsidyAt sampleHeap (subsidyConfigRef (sampleProps 10 0)))))
   \<and> status (calendarDays (fst (render clockNov3 sampleUnits sampleBill sampleParse sampleHeap
        (sampleProps 10 0) mountHooks)) ! 0) = Safe"
proof -
  have ix: "(1::nat) \<le> 1" "1 \<le> daysInMonth clockNov3"
    by (simp_all add: daysInMonth_samples)
  have fnd: "find (\<lambda>l. UserDailyUsage.date l = ''2026-11-01'') [sampleLog ''2026-11-01'' 5]
             = Some (sampleLog ''2026-11-01'' 5)"
    by (simp add: sampleLog_fields)
  have rt: "runningTotal clockNov3 [sampleLog ''2026-11-01'' 5] 1 = Fin 5"
    by (simp only: runningTotal_def upt_1_2 foldl.simps addDay_def dateStr_samples fnd
          option.case sampleLog_fields addUnits_samples)
  have up: "logsUpTo clockNov3 [sampleLog ''2026-11-01'' 5] 1 = [sampleLog ''2026-11-01'' 5]"
    unfolding logsUpTo_def upt_1_2 by (simp add: dateStr_samples dateStr_Suc0 sampleLog_fields)
  have cum: "cumulativeLoggedUnits clockNov3 (logsAt sampleHeap (logsRef (sampleProps 10 0))) 1
               = Fin 5"
    unfolding cumulativeLoggedUnits_def sampleHeap_logs up
    by (simp add: sampleLog_fields round64_samples)
  have lim: "limitOf (subsidyAt sampleHeap (subsidyConfigRef (sampleProps 10 0))) = PInf"
    "limitUnits (subsidyAt sampleHeap (subsidyConfigRef (sampleProps 10 0))) = 0"
    by (simp_all add: sampleHeap_subsidy limitOf_def defaultSubsidy_def)
  note cell = unclocked_fields [OF rendered_cell [OF consistent_mountHooks ix,
        of sampleUnits sampleBill sampleParse sampleHeap "sampleProps 10 0",
        unfolded sampleHeap_logs dateStr_samples fnd rt lim]]
  from cell(3,4) cum lim(2) show ?thesis by simp
qed

section \<open>The calendar when the limit is 0\<close>

text \<open>
  Claim C10. When \<open>limitUnits\<close> is 0, in every state the component can be in, the
  calendar shown has one cell for each day of the month, and the cell of day \<open>i\<close>
  holds the log dated that day, if any. A day without a log has no status; a day with
  a log is safe unless the running total of the loop has overflowed to \<open>Infinity\<close>, and
  then it is critical; no day is a warning. The total does not overflow when the
  units of every log are between 0 and \<open>2 ^ 990\<close>. The summary's \<open>slabCrossed\<close> is true
  exactly when the month's total is positive.
\<close>

theorem calendarDays_zero_limit:
  assumes "reachable calc bill p heap h"
    and "limitUnits (subsidyAt heap (subsidyConfigRef props)) = 0"
    and "1 \<le> i" and "i \<le> daysInMonth c"
  shows "let logs = logsAt heap (logsRef props);
             shown = fst (render c calc bill p heap props h);
             days = calendarDays shown;
             cell = days ! (i - 1)
         in length days = daysInMonth c
          \<and> dayNum cell = i
          \<and> CalendarDay.date cell = dateStr c i
          \<and> dayLog cell = find (\<lambda>l. UserDailyUsage.date l = dateStr c i) logs
          \<and> (dayLog cell = None \<longrightarrow> status cell = NoStatus)
          \<and> (dayLog cell \<noteq> None \<and> runningTotal c logs i \<noteq> PInf \<longrightarrow> status cell = Safe)
          \<and> (dayLog cell \<noteq> None \<and> runningTotal c logs i = PInf \<longrightarrow> status cell = Critical)
          \<and> status cell \<noteq> Warning
          \<and> ((\<forall>l \<in> set logs. 0 \<le> UserDailyUsage.totalUnits l
                                \<and> UserDailyUsage.totalUnits l \<le> 2 ^ 990)
               \<and> dayLog cell \<noteq> None \<longrightarrow> status cell = Safe)
          \<and> slabCrossed (summaryShown shown) = (0 < monthTotalUnits (monthLogs c logs))"
proof -
  note inv = reachable_consistent [OF assms(1)]
  have lim: "limitOf (subsidyAt heap (subsidyConfigRef props)) = PInf"
    using assms(2) by (simp add: limitOf_def)
  note cell = unclocked_fields [OF rendered_cell [OF inv assms(3,4), of props, unfolded lim]]
  have inf: "geq x PInf = (x = PInf)" for x
    by (cases x) simp_all
  have slab: "slabCrossed (summaryShown (fst (render c calc bill p heap props h)))
                = (0 < monthTotalUnits (monthLogs c (logsAt heap (logsRef props))))"
    by (simp add: render_step(2) [OF inv] slabCrossed_summary assms(2))
  have fin: "runningTotal c (logsAt heap (logsRef props)) i \<noteq> PInf"
    if "\<forall>l \<in> set (logsAt heap (logsRef props)).
          0 \<le> UserDailyUsage.totalUnits l \<and> UserDailyUsage.totalUnits l \<le> 2 ^ 990"
  proof -
    have "i \<le> 31" using assms(4) daysInMonth_bounds [of c] by simp
    from runningTotal_bounded [OF _ this, of "logsAt heap (logsRef props)" c] that
    obtain y where "runningTotal c (logsAt heap (logsRef props)) i = Fin y" by blast
    then show ?thesis by simp
  qed
  show ?thesis
    unfolding Let_def
    using rendered_length [OF inv, of c props] cell slab fin
    by (auto simp: inf split: option.splits)
qed

text \<open>
  Claim C10 instantiated: one log of 5 units for 1 November 2026 and the initial
  subsidy configuration, in a component that has rendered once before. The day has
  its log and is safe, and \<open>slabCrossed\<close> is true.
\<close>

theorem calendarDays_zero_limit_witness:
  "reachable sampleUnits sampleBill sampleParse sampleHeap
     (snd (render clockNov3 sampleUnits sampleBill sampleParse sampleHeap (sampleProps 10 0)
             mountHooks))
   \<and> limitUnits (subsidyAt sampleHeap (subsidyConfigRef (sampleProps 10 0))) = 0
   \<and> (1::nat) \<le> 1 \<and> 1 \<le> daysInMonth clockNov20
   \<and> list_all (\<lambda>l. 0 \<le> UserDailyUsage.totalUnits l \<and> UserDailyUsage.totalUnits l \<le> 2 ^ 990)
        (logsAt sampleHeap (logsRef (sampleProps 10 0)))
   \<and> runningTotal clockNov20 (logsAt sampleHeap (logsRef (sampleProps 10 0))) 1 = Fin 5
   \<and> dayLog (calendarDays (fst (render clockNov20 sampleUnits sampleBill sampleParse sampleHeap
        (sampleProps 10 0)
        (snd (render clockNov3 sampleUnits sampleBill sampleParse sampleHeap (sampleProps 10 0)
                mountHooks)))) ! 0) = Some (sampleLog ''2026-11-01'' 5)
   \<and> status (calendarDays (fst (render clockNov20 sampleUnits sampleBill sampleParse sampleHeap
        (sampleProps 10 0)
        (snd (render clockNov3 sampleUnits sampleBill sampleParse sampleHeap (sampleProps 10 0)
                mountHooks)))) ! 0) = Safe
   \<and> slabCrossed (summaryShown (fst (render clockNov20 sampleUnits sampleBill sampleParse
        sampleHeap (sampleProps 10 0)
        (snd (render clockNov3 sampleUnits sampleBill sampleParse sampleHeap (sampleProps 10 0)
                mountHooks)))))"
proof -
  have re: "reachable sampleUnits sampleBill sampleParse sampleHeap
     (snd (render clockNov3 sampleUnits sampleBill sampleParse sampleHeap (sampleProps 10 0)
             mountHooks))"
    by (intro reachable.rendered reachable.mounted)
  have li: "limitUnits (subsidyAt sampleHeap (subsidyConfigRef (sampleProps 10 0))) = 0"
    by (simp add: sampleHeap_subsidy defaultSubsidy_def)
  have ix: "(1::nat) \<le> 1" "1 \<le> daysInMonth clockNov20"
    by (simp_all add: daysInMonth_samples)
  have fnd: "find (\<lambda>l. UserDailyUsage.date l = ''2026-11-01'') [sampleLog ''2026-11-01'' 5]
             = Some (sampleLog ''2026-11-01'' 5)"
    by (simp add: sampleLog_fields)
  have rt': "runningTotal clockNov20 [sampleLog ''2026-11-01'' 5] 1 = Fin 5"
    by (simp only: runningTotal_def upt_1_2 foldl.simps addDay_def dateStr_nov20 fnd
          option.case sampleLog_fields addUnits_samples)
  then have rt: "runningTotal clockNov20 (logsAt sampleHeap (logsRef (sampleProps 10 0))) 1 = Fin 5"
    by (simp only: sampleHeap_logs)
  have tot: "monthTotalUnits (monthLogs clockNov20 [sampleLog ''2026-11-01'' 5]) = 5"
    by (simp add: monthTotalUnits_monthLogs currentMonth_samples startsWith_def sampleLog_fields)
  have bd: "list_all (\<lambda>l. 0 \<le> UserDailyUsage.totalUnits l \<and> UserDailyUsage.totalUnits l \<le> 2 ^ 990)
        (logsAt sampleHeap (logsRef (sampleProps 10 0)))"
    by (simp add: sampleHeap_logs sampleLog_fields)
  note t = calendarDays_zero_limit [OF re li ix,
      unfolded Let_def sampleHeap_logs rt' dateStr_nov20 fnd tot]
  from re li ix bd rt t show ?thesis by simp
qed

text \<open>
  Claim C10 for all cumulative units fails when the running total overflows: with logs
  of \<open>2 ^ 1023\<close> units for 1 and for 2 November 2026 and \<open>limitUnits = 0\<close>, the total after
  2 November is \<open>Infinity\<close>, which is \<open>>= Infinity\<close>, and the day is critical.
\<close>

theorem calendarDays_zero_limit_counterexample:
  "limitUnits (subsidyAt sampleHeap (subsidyConfigRef (sampleProps 30 0))) = 0
   \<and> dayLog (calendarDays (fst (render clockNov3 sampleUnits sampleBill sampleParse sampleHeap
        (sampleProps 30 0) mountHooks)) ! 1) = Some (sampleLog ''2026-11-02'' (2 ^ 1023))
   \<and> status (calendarDays (fst (render clockNov3 sampleUnits sampleBill sampleParse sampleHeap
        (sampleProps 30 0) mountHooks)) ! 1) = Critical"
proof -
  have ix: "(1::nat) \<le> 2" "2 \<le> daysInMonth clockNov3"
    by (simp_all add: daysInMonth_samples)
  have f1: "find (\<lambda>l. UserDailyUsage.date l = ''2026-11-01'')
              [sampleLog ''2026-11-01'' (2 ^ 1023), sampleLog ''2026-11-02'' (2 ^ 1023)]
             = Some (sampleLog ''2026-11-01'' (2 ^ 1023))"
    and f2: "find (\<lambda>l. UserDailyUsage.date l = ''2026-11-02'')
              [sampleLog ''2026-11-01'' (2 ^ 1023), sampleLog ''2026-11-02'' (2 ^ 1023)]
             = Some (sampleLog ''2026-11-02'' (2 ^ 1023))"
    by (simp_all add: sampleLog_fields)
  have rt: "runningTotal clockNov3
              [sampleLog ''2026-11-01'' (2 ^ 1023), sampleLog ''2026-11-02'' (2 ^ 1023)] 2 = PInf"
    by (simp only: runningTotal_def upt_1_2 foldl.simps addDay_def dateStr_samples f1 f2
          option.case sampleLog_fields addUnits_huge round64_overflow_example)
  have lim: "limitOf (subsidyAt sampleHeap (subsidyConfigRef (sampleProps 30 0))) = PInf"
    "limitUnits (subsidyAt sampleHeap (subsidyConfigRef (sampleProps 30 0))) = 0"
    by (simp_all add: sampleHeap_subsidy limitOf_def defaultSubsidy_def)
  note cell = unclocked_fields [OF rendered_cell [OF consistent_mountHooks ix,
        of sampleUnits sampleBill sampleParse sampleHeap "sampleProps 30 0",
        unfolded sampleHeap_logs dateStr_samples f2 rt lim]]
  from cell(3,4) lim(2) show ?thesis by simp
qed

section \<open>The summary, the calendar and the clock\<close>

text \<open>
  Claim C5. The component reads the clock itself. For any two states the component can
  be in and any two clock readings that agree on the current month string and on the
  number of days of the month, rendering with the same props shows the same summary,
  and calendar cells with the same statuses, logs, day numbers and dates.
\<close>

theorem summary_calendar_clock:
  assumes "reachable calc bill p heap h1"
    and "reachable calc bill p heap h2"
    and "currentMonth c1 = currentMonth c2"
    and "daysInMonth c1 = daysInMonth c2"
  shows "let r1 = fst (render c1 calc bill p heap props h1);
             r2 = fst (render c2 calc bill p heap props h2)
         in summaryShown r1 = summaryShown r2
          \<and> map status (calendarDays r1) = map status (calendarDays r2)
          \<and> map dayLog (calendarDays r1) = map dayLog (calendarDays r2)
          \<and> map dayNum (calendarDays r1) = map dayNum (calendarDays r2)
          \<and> map CalendarDay.date (calendarDays r1) = map CalendarDay.date (calendarDays r2)"
proof -
  note i1 = reachable_consistent [OF assms(1)]
  note i2 = reachable_consistent [OF assms(2)]
  define d1 where "d1 = calendarDays (fst (render c1 calc bill p heap props h1))"
  define d2 where "d2 = calendarDays (fst (render c2 calc bill p heap props h2))"
  have s: "summaryShown (fst (render c1 calc bill p heap props h1))
             = summaryShown (fst (render c2 calc bill p heap props h2))"
    unfolding render_step(2) [OF i1] render_step(2) [OF i2] summary_summaryOfMonth
      monthLogs_clock_cong [OF assms(3)] summaryOfMonth_clock_cong [OF assms(3,4)] ..
  have u: "map unclocked d1 = map unclocked d2"
    unfolding d1_def d2_def render_step(3) [OF i1] render_step(3) [OF i2]
      monthLogs_clock_cong [OF assms(3)] computeCalendarDays_clock_cong [OF assms(3,4)] ..
  have st: "map status d1 = map (\<lambda>x. snd (snd (snd x))) (map unclocked d1)"
    "map status d2 = map (\<lambda>x. snd (snd (snd x))) (map unclocked d2)"
    by (simp_all add: unclocked_def comp_def)
  have lg: "map dayLog d1 = map (\<lambda>x. fst (snd (snd x))) (map unclocked d1)"
    "map dayLog d2 = map (\<lambda>x. fst (snd (snd x))) (map unclocked d2)"
    by (simp_all add: unclocked_def comp_def)
  have dn: "map dayNum d1 = map (\<lambda>x. fst (snd x)) (map unclocked d1)"
    "map dayNum d2 = map (\<lambda>x. fst (snd x)) (map unclocked d2)"
    by (simp_all add: unclocked_def comp_def)
  have dt: "map CalendarDay.date d1 = map fst (map unclocked d1)"
    "map CalendarDay.date d2 = map fst (map unclocked d2)"
    by (simp_all add: unclocked_def comp_def)
  have "map status d1 = map status d2" "map dayLog d1 = map dayLog d2"
    "map dayNum d1 = map dayNum d2" "map CalendarDay.date d1 = map CalendarDay.date d2"
    unfolding st lg dn dt u by (rule refl)+
  with s show ?thesis
    unfolding Let_def d1_def d2_def by simp
qed

text \<open>
  Claim C5 instantiated: the props with the logs of 1 and 2 November 2026 and the limit
  of 100 units, rendered at the mount on 3 November and, after a render with other
  props, on 20 November.
\<close>

theorem summary_calendar_clock_witness:
  "reachable sampleUnits sampleBill sampleParse sampleHeap mountHooks
   \<and> reachable sampleUnits sampleBill sampleParse sampleHeap
       (snd (render clockNov3 sampleUnits sampleBill sampleParse sampleHeap (sampleProps 10 0)
               mountHooks))
   \<and> currentMonth clockNov3 = currentMonth clockNov20
   \<and> daysInMonth clockNov3 = daysInMonth clockNov20
   \<and> summaryShown (fst (render clockNov3 sampleUnits sampleBill sampleParse sampleHeap
         (sampleProps 20 40) mountHooks))
     = summaryShown (fst (render clockNov20 sampleUnits sampleBill sampleParse sampleHeap
         (sampleProps 20 40)
         (snd (render clockNov3 sampleUnits sampleBill sampleParse sampleHeap (sampleProps 10 0)
                 mountHooks))))
   \<and> map status (calendarDays (fst (render clockNov3 sampleUnits sampleBill sampleParse
         sampleHeap (sampleProps 20 40) mountHooks)))
     = map status (calendarDays (fst (render clockNov20 sampleUnits sampleBill sampleParse
         sampleHeap (sampleProps 20 40)
         (snd (render clockNov3 sampleUnits sampleBill sampleParse sampleHeap (sampleProps 10 0)
                 mountHooks)))))"
proof -
  have r1: "reachable sampleUnits sampleBill sampleParse sampleHeap mountHooks"
    by (rule reachable.mounted)
  have r2: "reachable sampleUnits sampleBill sampleParse sampleHeap
       (snd (render clockNov3 sampleUnits sampleBill sampleParse sampleHeap (sampleProps 10 0)
               mountHooks))"
    by (intro reachable.rendered reachable.mounted)
  have m: "currentMonth clockNov3 = currentMonth clockNov20"
    and d: "daysInMonth clockNov3 = daysInMonth clockNov20"
    by (simp_all add: currentMonth_samples daysInMonth_samples)
  note t = summary_calendar_clock [OF r1 r2 m d, of "sampleProps 20 40", unfolded Let_def]
  from r1 r2 m d t show ?thesis by simp
qed

text \<open>
  Claim C5 without the clock among the arguments fails: with the same props, one log of
  5 units for 1 November 2026, and the same state of the component, a clock in November
  2026 and one in December 2026 show total units 5 and 0, and a first day of the
  calendar that is safe and without status.
\<close>

theorem summary_calendar_clock_counterexample:
  "MonthlyUsageSummary.totalUnits (summaryShown (fst (render clockNov3 sampleUnits sampleBill
       sampleParse sampleHeap (sampleProps 10 0) mountHooks))) = 5
   \<and> MonthlyUsageSummary.totalUnits (summaryShown (fst (render clockDec5 sampleUnits sampleBill
       sampleParse sampleHeap (sampleProps 10 0) mountHooks))) = 0
   \<and> status (calendarDays (fst (render clockNov3 sampleUnits sampleBill sampleParse sampleHeap
       (sampleProps 10 0) mountHooks)) ! 0) = Safe
   \<and> status (calendarDays (fst (render clockDec5 sampleUnits sampleBill sampleParse sampleHeap
       (sampleProps 10 0) mountHooks)) ! 0) = NoStatus"
proof -
  have inv: "consistent sampleUnits sampleBill sampleParse sampleHeap mountHooks"
    by (rule consistent_mountHooks)
  have a: "MonthlyUsageSummary.totalUnits (summaryShown (fst (render clockNov3 sampleUnits
       sampleBill sampleParse sampleHeap (sampleProps 10 0) mountHooks))) = 5"
    unfolding render_step(2) [OF inv] sampleHeap_logs
    by (simp add: summary_def Let_def monthLogs_one_nov monthTotalUnits_def)
       (simp add: sampleLog_def)
  have b: "MonthlyUsageSummary.totalUnits (summaryShown (fst (render clockDec5 sampleUnits
       sampleBill sampleParse sampleHeap (sampleProps 10 0) mountHooks))) = 0"
    unfolding render_step(2) [OF inv] sampleHeap_logs
    by (simp add: summary_def Let_def monthLogs_one_dec monthTotalUnits_def)
  have r: "(1::nat) \<le> 1" "1 \<le> daysInMonth clockNov3" "1 \<le> daysInMonth clockDec5"
    by (simp_all add: daysInMonth_samples)
  have f: "find (\<lambda>l. UserDailyUsage.date l = ''2026-11-01'') [sampleLog ''2026-11-01'' 5]
           = Some (sampleLog ''2026-11-01'' 5)"
    and g: "find (\<lambda>l. UserDailyUsage.date l = ''2026-12-01'') [sampleLog ''2026-11-01'' 5]
           = None"
    by (simp_all add: sampleLog_fields)
  have lim: "limitOf (subsidyAt sampleHeap (subsidyConfigRef (sampleProps 10 0))) = PInf"
    by (simp add: sampleHeap_subsidy limitOf_def defaultSubsidy_def)
  have rt: "runningTotal clockNov3 [sampleLog ''2026-11-01'' 5] 1 = Fin 5"
    by (simp only: runningTotal_def upt_1_2 foldl.simps addDay_def dateStr_samples f
          option.case sampleLog_fields addUnits_samples)
  note n = unclocked_fields [OF rendered_cell [OF inv r(1,2),
        of "sampleProps 10 0",
        unfolded sampleHeap_logs dateStr_samples f rt lim]]
  note d = unclocked_fields [OF rendered_cell [OF inv r(1,3),
        of "sampleProps 10 0",
        unfolded sampleHeap_logs dateStr_samples g lim]]
  from a b n(4) d(4) show ?thesis by simp
qed

section \<open>Cells kept from an earlier render\<close>

text \<open>
  While the props, the month string and the number of days stay the same, a render
  returns the cells of the earlier render, whatever the instant: \<open>isFuture\<close> and
  \<open>isEstimated\<close> are those of the render that computed the calendar.
\<close>

lemma useMemo_hit: "fst (useMemo d x (snd (useMemo d y cache))) = fst (useMemo d y cache)"
  by (simp add: useMemo_def split: option.split)

lemma render_cached:
  assumes "currentMonth c2 = currentMonth c1" and "daysInMonth c2 = daysInMonth c1"
  shows "calendarDays (fst (render c2 calc bill p heap props
                              (snd (render c1 calc bill p heap props h))))
           = calendarDays (fst (render c1 calc bill p heap props h))"
  by (simp add: render_unfold Let_def assms useMemo_hit)

lemma render_mount:
  "calendarDays (fst (render c calc bill p heap props mountHooks))
     = computeCalendarDays c p (monthLogs c (logsAt heap (logsRef props)))
         (subsidyAt heap (subsidyConfigRef props))"
  by (simp add: render_unfold Let_def mountHooks_def useMemo_def)

lemma isFuture_dayCell:
  "isFuture (snd (dayCell c p mLogs limit i cum))
     = (case p (dateStr c i) of Some t \<Rightarrow> nowMs c < t | None \<Rightarrow> False)"
  by (simp add: dayCell_def Let_def)

lemma clockNov1_samples:
  "currentMonth clockNov1 = ''2026-11''" "daysInMonth clockNov1 = 30"
  "dateStr clockNov1 2 = ''2026-11-02''"
  by (simp_all add: currentMonth_def daysInMonth_def lastDayOfMonth_def isLeapYear_def
        dateStr_def toString_digit digitChar_def padStart_def clockNov1_def)

lemma second_cell:
  "1 < n \<Longrightarrow> map f [1..<Suc n] ! 1 = f 2"
  by (simp add: numeral_2_eq_2 del: upt_Suc)

text \<open>
  2 November 2026 is in the future at 06:00 on 1 November, and is still shown so on
  3 November by a component that rendered on 1 November, while a component mounted on
  3 November shows it as not in the future.
\<close>

lemma calendarDays_cached_sample:
  "isFuture (calendarDays (fst (render clockNov1 sampleUnits sampleBill sampleParse sampleHeap
       (sampleProps 10 0) mountHooks)) ! 1)
   \<and> isFuture (calendarDays (fst (render clockNov3 sampleUnits sampleBill sampleParse sampleHeap
       (sampleProps 10 0)
       (snd (render clockNov1 sampleUnits sampleBill sampleParse sampleHeap (sampleProps 10 0)
               mountHooks)))) ! 1)
   \<and> \<not> isFuture (calendarDays (fst (render clockNov3 sampleUnits sampleBill sampleParse
       sampleHeap (sampleProps 10 0) mountHooks)) ! 1)"
proof -
  have sc: "map f [1..<Suc 30] ! 1 = f 2" for f :: "nat \<Rightarrow> CalendarDay"
    by (rule second_cell) simp
  have a: "isFuture (calendarDays (fst (render clockNov1 sampleUnits sampleBill sampleParse
       sampleHeap (sampleProps 10 0) mountHooks)) ! 1)"
    unfolding render_mount computeCalendarDays_closed clockNov1_samples sc isFuture_dayCell
    by (simp add: sampleParse_def clockNov1_def)
  have b: "\<not> isFuture (calendarDays (fst (render clockNov3 sampleUnits sampleBill sampleParse
       sampleHeap (sampleProps 10 0) mountHooks)) ! 1)"
    unfolding render_mount computeCalendarDays_closed daysInMonth_samples sc isFuture_dayCell
      dateStr_samples
    by (simp add: sampleParse_def clockNov3_def)
  have c: "currentMonth clockNov3 = currentMonth clockNov1"
    "daysInMonth clockNov3 = daysInMonth clockNov1"
    by (simp_all add: clockNov1_samples currentMonth_samples daysInMonth_samples)
  from a b show ?thesis
    unfolding render_cached [OF c] by simp
qed

section \<open>The monthly summary\<close>

text \<open>
  Claim C2. The confidence score of the summary is null when fewer than 10 logs fall
  in the current month, and otherwise min(99, 65 + (daysLogged / daysInMonth) \<open>\<times>\<close> 35),
  where daysLogged is the number of logs whose date starts with the current month
  and daysInMonth is never 0. The score never exceeds 99. With the clock fixed, it
  does not decrease when daysLogged grows, and it increases strictly as long as
  daysLogged stays within daysInMonth.
\<close>

theorem summary_confidenceScore:
  "confidenceScore (summary c calc bill logs tariff inventory sc sn) =
     (if daysLogged (monthLogs c logs) < 10 then None
      else Some (min 99 (65 + real (daysLogged (monthLogs c logs)) / real (daysInMonth c) * 35)))
   \<and> daysLogged (monthLogs c logs) =
       length (filter (\<lambda>l. startsWith (UserDailyUsage.date l) (currentMonth c)) logs)
   \<and> 0 < daysInMonth c
   \<and> (\<forall>x. confidenceScore (summary c calc bill logs tariff inventory sc sn) = Some x
          \<longrightarrow> x \<le> 99)
   \<and> (10 \<le> daysLogged (monthLogs c logs)
        \<and> daysLogged (monthLogs c logs) \<le> daysLogged (monthLogs c logs')
      \<longrightarrow> (\<exists>x y. confidenceScore (summary c calc bill logs tariff inventory sc sn) = Some x
                \<and> confidenceScore (summary c calc bill logs' tariff inventory sc sn) = Some y
                \<and> x \<le> y
                \<and> (daysLogged (monthLogs c logs) < daysLogged (monthLogs c logs')
                     \<and> daysLogged (monthLogs c logs') \<le> daysInMonth c \<longrightarrow> x < y)))"
proof -
  have pos: "0 < daysInMonth c" and le31: "daysInMonth c \<le> 31"
    using daysInMonth_bounds [of c] by simp_all
  have cap: "\<forall>x. confidenceScore (summary c calc bill logs tariff inventory sc sn) = Some x
          \<longrightarrow> x \<le> 99"
    by (auto simp: confidenceScore_summary split: if_splits)
  have mono: "\<exists>x y. confidenceScore (summary c calc bill logs tariff inventory sc sn) = Some x
                \<and> confidenceScore (summary c calc bill logs' tariff inventory sc sn) = Some y
                \<and> x \<le> y
                \<and> (daysLogged (monthLogs c logs) < daysLogged (monthLogs c logs')
                     \<and> daysLogged (monthLogs c logs') \<le> daysInMonth c \<longrightarrow> x < y)"
    if h: "10 \<le> daysLogged (monthLogs c logs)"
       "daysLogged (monthLogs c logs) \<le> daysLogged (monthLogs c logs')"
  proof -
    from h have s1: "confidenceScore (summary c calc bill logs tariff inventory sc sn)
        = Some (min 99 (65 + real (daysLogged (monthLogs c logs)) / real (daysInMonth c) * 35))"
      and s2: "confidenceScore (summary c calc bill logs' tariff inventory sc sn)
        = Some (min 99 (65 + real (daysLogged (monthLogs c logs')) / real (daysInMonth c) * 35))"
      by (simp_all add: confidenceScore_summary)
    show ?thesis
      unfolding s1 s2 
      using score_mono [OF h(2), of "daysInMonth c"]
        score_strict_mono [of "daysLogged (monthLogs c logs)" "daysLogged (monthLogs c logs')"
          "daysInMonth c"] le31
      by blast
  qed
  show ?thesis
  proof (intro conjI)
    show "confidenceScore (summary c calc bill logs tariff inventory sc sn) =
     (if daysLogged (monthLogs c logs) < 10 then None
      else Some (min 99 (65 + real (daysLogged (monthLogs c logs)) / real (daysInMonth c) * 35)))"
      by (rule confidenceScore_summary)
    show "daysLogged (monthLogs c logs) =
       length (filter (\<lambda>l. startsWith (UserDailyUsage.date l) (currentMonth c)) logs)"
      by (rule daysLogged_monthLogs)
    show "0 < daysInMonth c" by (rule pos)
    show "\<forall>x. confidenceScore (summary c calc bill logs tariff inventory sc sn) = Some x
          \<longrightarrow> x \<le> 99"
      by (rule cap)
  next
    show "10 \<le> daysLogged (monthLogs c logs)
        \<and> daysLogged (monthLogs c logs) \<le> daysLogged (monthLogs c logs')
      \<longrightarrow> (\<exists>x y. confidenceScore (summary c calc bill logs tariff inventory sc sn) = Some x
                \<and> confidenceScore (summary c calc bill logs' tariff inventory sc sn) = Some y
                \<and> x \<le> y
                \<and> (daysLogged (monthLogs c logs) < daysLogged (monthLogs c logs')
                     \<and> daysLogged (monthLogs c logs') \<le> daysInMonth c \<longrightarrow> x < y))"
      using mono by blast
  qed
qed

text \<open>
  Claim C2 instantiated, the example of the specification: 10 logged days in
  November, a month of 30 days, give 230/3, which is 76.67 to two decimals; 11 logged
  days give more, and a single logged day gives null.
\<close>

theorem summary_confidenceScore_witness:
  "10 \<le> daysLogged (monthLogs clockNov3 tenLogs)
   \<and> daysLogged (monthLogs clockNov3 tenLogs) \<le> daysLogged (monthLogs clockNov3 elevenLogs)
   \<and> daysInMonth clockNov3 = 30
   \<and> confidenceScore (summary clockNov3 sampleUnits sampleBill tenLogs sampleTariff []
                         defaultSubsidy Summer) = Some (230 / 3)
   \<and> confidenceScore (summary clockNov3 sampleUnits sampleBill elevenLogs sampleTariff []
                         defaultSubsidy Summer) = Some (467 / 6)
   \<and> \<bar>230 / 3 - 76.67\<bar> < (0.005::real)
   \<and> confidenceScore (summary clockNov3 sampleUnits sampleBill [sampleLog ''2026-11-01'' 5]
                         sampleTariff [] defaultSubsidy Summer) = None"
proof -
  have one: "daysLogged (monthLogs clockNov3 [sampleLog ''2026-11-01'' 5]) = 1"
    by (simp add: monthLogs_one_nov daysLogged_def)
  note t = summary_confidenceScore [of clockNov3 sampleUnits sampleBill tenLogs sampleTariff "[]"
      defaultSubsidy Summer elevenLogs, unfolded daysLogged_tenLogs daysInMonth_samples]
  note e = summary_confidenceScore [of clockNov3 sampleUnits sampleBill elevenLogs sampleTariff "[]"
      defaultSubsidy Summer elevenLogs, unfolded daysLogged_tenLogs daysInMonth_samples]
  note o = summary_confidenceScore [of clockNov3 sampleUnits sampleBill
      "[sampleLog ''2026-11-01'' 5]" sampleTariff "[]"
      defaultSubsidy Summer elevenLogs, unfolded one daysInMonth_samples]
  from t e o show ?thesis
    by (simp add: daysLogged_tenLogs daysInMonth_samples)
qed

text \<open>
  Claim C3. Whatever the subsidy configuration, of type none or not, the summary's
  \<open>slabCrossed\<close> flag is the comparison of its month-to-date \<open>totalUnits\<close> with
  \<open>limitUnits\<close>, strictly greater; \<open>totalUnits\<close> is the sum of the units of the logs
  whose date starts with the current month.
\<close>

theorem summary_slabCrossed:
  "slabCrossed (summary c calc bill logs tariff inventory sc sn)
     = (MonthlyUsageSummary.totalUnits (summary c calc bill logs tariff inventory sc sn)
          > limitUnits sc)
   \<and> MonthlyUsageSummary.totalUnits (summary c calc bill logs tariff inventory sc sn)
     = sum_list (map UserDailyUsage.totalUnits
         (filter (\<lambda>l. startsWith (UserDailyUsage.date l) (currentMonth c)) logs))"
proof -
  have "MonthlyUsageSummary.totalUnits (summary c calc bill logs tariff inventory sc sn)
          = monthTotalUnits (monthLogs c logs)"
    by (simp add: summary_def Let_def)
  then show ?thesis
    by (simp add: slabCrossed_summary monthTotalUnits_monthLogs)
qed

text \<open>
  Claim C4. When at least one log falls in the current month, the average units per
  day are the month-to-date total units divided by the number of those logs;
  otherwise they are the sum, over the inventory, of the monthly units of each
  appliance, divided by 30. In both cases the summary's projected units are the
  average times the number of days of the month. The function that gives the
  monthly units of an appliance is arbitrary here.
\<close>

theorem summary_avgUnitsPerDay:
  "avgUnitsPerDay calc (monthLogs c logs) inventory sn =
     (if daysLogged (monthLogs c logs) \<ge> 1
      then monthTotalUnits (monthLogs c logs) / real (daysLogged (monthLogs c logs))
      else sum_list (map (\<lambda>a. calc a sn) inventory) / 30)
   \<and> projectedUnits (summary c calc bill logs tariff inventory sc sn)
     = avgUnitsPerDay calc (monthLogs c logs) inventory sn * real (daysInMonth c)
   \<and> monthTotalUnits (monthLogs c logs)
     = MonthlyUsageSummary.totalUnits (summary c calc bill logs tariff inventory sc sn)
   \<and> daysLogged (monthLogs c logs)
     = length (filter (\<lambda>l. startsWith (UserDailyUsage.date l) (currentMonth c)) logs)"
proof -
  have avg: "avgUnitsPerDay calc (monthLogs c logs) inventory sn =
     (if daysLogged (monthLogs c logs) \<ge> 1
      then monthTotalUnits (monthLogs c logs) / real (daysLogged (monthLogs c logs))
      else sum_list (map (\<lambda>a. calc a sn) inventory) / 30)"
    by (simp add: avgUnitsPerDay_def baselineDaily_sum Suc_le_eq)
  have tot: "monthTotalUnits (monthLogs c logs)
     = MonthlyUsageSummary.totalUnits (summary c calc bill logs tariff inventory sc sn)"
    by (simp add: summary_def Let_def)
  from avg tot projectedUnits_summary [of c calc bill logs tariff inventory sc sn]
    daysLogged_monthLogs [of c logs]
  show ?thesis by (simp only: simp_thms)
qed

text \<open>
  Claim C4 instantiated, the example of the specification: 10 logged days with 80 units
  in all, in a month of 30 days, give an average of 8 and a projection of 240. With
  no log and one appliance of 150 units a month, the average is 5 and the projection
  150.
\<close>

theorem summary_avgUnitsPerDay_witness:
  "avgUnitsPerDay sampleUnits (monthLogs clockNov3 tenLogs) [sampleAppliance Electronics] Summer = 8
   \<and> projectedUnits (summary clockNov3 sampleUnits sampleBill tenLogs sampleTariff
                       [sampleAppliance Electronics] defaultSubsidy Summer) = 240
   \<and> avgUnitsPerDay sampleUnits (monthLogs clockNov3 []) [sampleAppliance Electronics] Summer = 5
   \<and> projectedUnits (summary clockNov3 sampleUnits sampleBill [] sampleTariff
                       [sampleAppliance Electronics] defaultSubsidy Summer) = 150"
proof -
  have none: "daysLogged (monthLogs clockNov3 []) = 0"
    by (simp add: daysLogged_monthLogs)
  have u: "sampleUnits (sampleAppliance Electronics) Summer = 150"
    by (simp add: sampleUnits_def sampleAppliance_def)
  note t = summary_avgUnitsPerDay [of sampleUnits clockNov3 tenLogs "[sampleAppliance Electronics]"
      Summer sampleBill sampleTariff defaultSubsidy,
      unfolded daysLogged_tenLogs monthTotalUnits_tenLogs daysInMonth_samples]
  note e = summary_avgUnitsPerDay [of sampleUnits clockNov3 "[]" "[sampleAppliance Electronics]"
      Summer sampleBill sampleTariff defaultSubsidy,
      unfolded none daysInMonth_samples]
  from t e show ?thesis by (simp add: u)
qed

section \<open>The calculation engine\<close>

text \<open>
  Claim C6. For units \<open>u \<ge> 0\<close> and a subsidy of type government or company with limit
  \<open>L\<close>: subsidized plus billable units are \<open>u\<close>, the billable units are max(0, u - L),
  the subsidized units min(u, L) and the remaining subsidy units max(0, L - u). For
  type none the billable units are \<open>u\<close> and the other two are 0.
\<close>

theorem applySubsidy_split:
  "(0 \<le> u \<and> (type cfg = Government \<or> type cfg = Company) \<longrightarrow>
      SubsidyResult.subsidizedUnits (applySubsidy u cfg)
        + SubsidyResult.billableUnits (applySubsidy u cfg) = u
    \<and> SubsidyResult.billableUnits (applySubsidy u cfg) = max 0 (u - limitUnits cfg)
    \<and> SubsidyResult.subsidizedUnits (applySubsidy u cfg) = min u (limitUnits cfg)
    \<and> SubsidyResult.remainingSubsidyUnits (applySubsidy u cfg) = max 0 (limitUnits cfg - u))
   \<and> (0 \<le> u \<and> type cfg = NoSubsidy \<longrightarrow>
      SubsidyResult.billableUnits (applySubsidy u cfg) = u
    \<and> SubsidyResult.subsidizedUnits (applySubsidy u cfg) = 0
    \<and> SubsidyResult.remainingSubsidyUnits (applySubsidy u cfg) = 0)"
  by (cases "type cfg") (auto simp: applySubsidy_def)

text \<open>
  Claim C6 instantiated: 250 units against a government limit of 100, and against the
  initial configuration of type none.
\<close>

theorem applySubsidy_split_witness:
  "(0::real) \<le> 250
   \<and> type \<lparr> type = Government, limitUnits = 100 \<rparr> = Government
   \<and> type defaultSubsidy = NoSubsidy
   \<and> SubsidyResult.subsidizedUnits (applySubsidy 250 \<lparr> type = Government, limitUnits = 100 \<rparr>) = 100
   \<and> SubsidyResult.billableUnits (applySubsidy 250 \<lparr> type = Government, limitUnits = 100 \<rparr>) = 150
   \<and> SubsidyResult.remainingSubsidyUnits
         (applySubsidy 250 \<lparr> type = Government, limitUnits = 100 \<rparr>) = 0
   \<and> SubsidyResult.billableUnits (applySubsidy 250 defaultSubsidy) = 250
   \<and> SubsidyResult.subsidizedUnits (applySubsidy 250 defaultSubsidy) = 0"
  using applySubsidy_split [of 250 "\<lparr> type = Government, limitUnits = 100 \<rparr>"]
    applySubsidy_split [of 250 defaultSubsidy]
  by (simp add: defaultSubsidy_def)

text \<open>
  Claim C7. For an appliance in standard mode with non-negative watts, hours per day,
  days per month and quantity, the monthly units are watts \<open>\<times>\<close> hoursPerDay \<open>\<times>\<close>
  daysPerMonth \<open>\<times>\<close> quantity / 1000, times the seasonal multiplier exactly when the
  category is cooling or heating; for electronics, lighting and motor the units are
  the same in every season.
\<close>

theorem computeMonthlyUnits_standard:
  assumes "inputMode a = Standard"
    and "0 \<le> watts a" and "0 \<le> hoursPerDay a" and "0 \<le> daysPerMonth a" and "0 \<le> quantity a"
  shows "computeMonthlyUnits cfg a s =
           Inr (if category a = Cooling \<or> category a = Heating
                then watts a * hoursPerDay a * daysPerMonth a * quantity a / 1000
                       * seasonalMultiplier cfg s
                else watts a * hoursPerDay a * daysPerMonth a * quantity a / 1000)
       \<and> (category a = Electronics \<or> category a = Lighting \<or> category a = Motor
            \<longrightarrow> computeMonthlyUnits cfg a s = computeMonthlyUnits cfg a s')"
  using assms by (cases "category a") (simp_all add: computeMonthlyUnits_def Let_def)

text \<open>
  Claim C7 instantiated, the example of the specification: 1000 W, 5 hours a day, 30
  days, quantity 1 and a summer multiplier of 1.2 give 180 units for a cooling
  appliance and 150 for an electronics one, in summer as in winter.
\<close>

theorem computeMonthlyUnits_standard_witness:
  "inputMode (sampleAppliance Cooling) = Standard
   \<and> 0 \<le> watts (sampleAppliance Cooling) \<and> 0 \<le> hoursPerDay (sampleAppliance Cooling)
   \<and> 0 \<le> daysPerMonth (sampleAppliance Cooling) \<and> 0 \<le> quantity (sampleAppliance Cooling)
   \<and> seasonalMultiplier sampleConfig Summer = 1.2
   \<and> computeMonthlyUnits sampleConfig (sampleAppliance Cooling) Summer = Inr 180
   \<and> computeMonthlyUnits sampleConfig (sampleAppliance Electronics) Summer = Inr 150
   \<and> computeMonthlyUnits sampleConfig (sampleAppliance Electronics) Winter = Inr 150"
proof -
  have h: "inputMode (sampleAppliance cat) = Standard"
    "0 \<le> watts (sampleAppliance cat)" "0 \<le> hoursPerDay (sampleAppliance cat)"
    "0 \<le> daysPerMonth (sampleAppliance cat)" "0 \<le> quantity (sampleAppliance cat)" for cat
    by (simp_all add: sampleAppliance_def)
  have v: "watts (sampleAppliance cat) = 1000" "hoursPerDay (sampleAppliance cat) = 5"
    "daysPerMonth (sampleAppliance cat) = 30" "quantity (sampleAppliance cat) = 1"
    "category (sampleAppliance cat) = cat" for cat
    by (simp_all add: sampleAppliance_def)
  have m: "seasonalMultiplier sampleConfig Summer = 1.2"
    by (simp add: sampleConfig_def)
  from h [of Cooling] m
    computeMonthlyUnits_standard [OF h [of Cooling], of sampleConfig Summer Winter]
    computeMonthlyUnits_standard [OF h [of Electronics], of sampleConfig Summer Winter]
    computeMonthlyUnits_standard [OF h [of Electronics], of sampleConfig Winter Summer]
  show ?thesis by (simp add: v)
qed

lemma slabUnits_zero: "0 \<le> slab_min slab \<Longrightarrow> slabUnits 0 slab = 0"
  by (simp add: slabUnits_def split: option.split)

lemma energy_zero:
  "list_all (\<lambda>s. 0 \<le> slab_min s \<and> 0 \<le> rate s) ss \<Longrightarrow>
   sum_list (map (\<lambda>slab. slabUnits 0 slab * rate slab) ss) = 0"
  by (induction ss) (simp_all add: slabUnits_zero)

lemma calculateProgressiveBill_zero:
  assumes "validTariff tariff"
  shows "total (calculateProgressiveBill 0 tariff) = StateTariff.fixedCharge tariff"
  using assms by (simp add: calculateProgressiveBill_def validTariff_def Let_def energy_zero)

lemma validTariff_sample: "validTariff sampleTariff"
  by (simp add: validTariff_def sampleTariff_def)

text \<open>
  Claim C8. For a valid tariff, an empty list of appliances, solar not installed and
  a subsidy of type none, the full calculation in any season returns a result, not
  an error, with total units 0 and a total cost equal to the tariff's fixed charge.
\<close>

theorem getFullCalculation_empty:
  assumes "validTariff tariff" and "\<not> isInstalled solar" and "type sc = NoSubsidy"
  shows "\<exists>r. getFullCalculation cfg [] tariff solar sc s = Inr r
             \<and> CalculationResult.totalUnits r = 0
             \<and> CalculationResult.totalCost r = StateTariff.fixedCharge tariff"
proof -
  have sub: "SubsidyResult.billableUnits (applySubsidy 0 sc) = 0"
    using assms(3) by (simp add: applySubsidy_def)
  show ?thesis
    using assms(1,2) calculateProgressiveBill_zero [OF assms(1)]
    by (simp add: getFullCalculation_def Let_def sub)
qed

text \<open>
  Claim C8 instantiated: the three-slab tariff of the specification's example, with a
  fixed charge of 50.
\<close>

theorem getFullCalculation_empty_witness:
  "validTariff sampleTariff
   \<and> \<not> isInstalled \<lparr> isInstalled = False, ratingKw = 3 \<rparr>
   \<and> type defaultSubsidy = NoSubsidy
   \<and> (\<exists>r. getFullCalculation sampleConfig [] sampleTariff \<lparr> isInstalled = False, ratingKw = 3 \<rparr>
               defaultSubsidy Summer = Inr r
           \<and> CalculationResult.totalUnits r = 0 \<and> CalculationResult.totalCost r = 50)"
proof -
  have h: "validTariff sampleTariff" "\<not> isInstalled \<lparr> isInstalled = False, ratingKw = 3 \<rparr>"
    "type defaultSubsidy = NoSubsidy"
    by (simp_all add: validTariff_sample defaultSubsidy_def)
  have f: "StateTariff.fixedCharge sampleTariff = 50"
    by (simp add: sampleTariff_def)
  from h getFullCalculation_empty [OF h, of sampleConfig Summer]
  show ?thesis by (simp add: f)
qed

end
